theory Spec2Isabelle
  imports Complex_Main "HOL-Library.Word"
begin

section \<open>The raster image of \<open>src/image.cpp\<close>\<close>

text \<open>
  The class \<open>Image\<close> wraps a \<open>CImg<double>\<close> pixel store and keeps its own copy of the
  width, the height and the number of channels, all of type \<open>size_t\<close>.

  Conventions of the embedding:
  \<^item> \<open>size_t\<close> is a 64-bit word, so that \<open>width - 1\<close> wraps as it does in C++;
  \<^item> a \<open>double\<close> is a finite real number, an infinity or NaN; on the special values
    arithmetic and comparison follow IEEE 754 (\<open>inf * 0\<close> and \<open>inf - inf\<close> are NaN, every
    comparison with NaN is false); on finite values arithmetic is exact, so rounding,
    overflow and the sign of zero are not modelled, and the conversion of a \<open>size_t\<close> to
    \<open>double\<close> is exact;
  \<^item> pixel buffers live in an explicit heap, addressed through the store's data pointer,
    so that copying and moving a store can be told apart;
  \<^item> a C++ exception is a value \<open>Inl e\<close>; undefined behaviour (an access outside a
    buffer, a conversion out of range) is the value \<open>Inl Undefined\<close>.
\<close>

type_synonym size_t = "64 word"

subsection \<open>The type \<open>double\<close>\<close>

datatype double = Finite real | PInf | NInf | NaN

fun dneg :: "double \<Rightarrow> double" where
  "dneg (Finite a) = Finite (- a)"
| "dneg PInf = NInf"
| "dneg NInf = PInf"
| "dneg NaN = NaN"

instantiation double :: "{zero, one, plus, minus, times, ord}"
begin

definition zero_double :: double where
  "zero_double = Finite 0"

definition one_double :: double where
  "one_double = Finite 1"

fun plus_double :: "double \<Rightarrow> double \<Rightarrow> double" where
  "plus_double NaN b = NaN"
| "plus_double a NaN = NaN"
| "plus_double (Finite a) (Finite b) = Finite (a + b)"
| "plus_double PInf NInf = NaN"
| "plus_double NInf PInf = NaN"
| "plus_double PInf b = PInf"
| "plus_double a PInf = PInf"
| "plus_double NInf b = NInf"
| "plus_double a NInf = NInf"

definition minus_double :: "double \<Rightarrow> double \<Rightarrow> double" where
  "minus_double a b = a + dneg b"

fun times_double :: "double \<Rightarrow> double \<Rightarrow> double" where
  "times_double NaN b = NaN"
| "times_double a NaN = NaN"
| "times_double (Finite a) (Finite b) = Finite (a * b)"
| "times_double (Finite a) PInf = (if a = 0 then NaN else if 0 < a then PInf else NInf)"
| "times_double (Finite a) NInf = (if a = 0 then NaN else if 0 < a then NInf else PInf)"
| "times_double PInf (Finite b) = (if b = 0 then NaN else if 0 < b then PInf else NInf)"
| "times_double NInf (Finite b) = (if b = 0 then NaN else if 0 < b then NInf else PInf)"
| "times_double PInf PInf = PInf"
| "times_double PInf NInf = NInf"
| "times_double NInf PInf = NInf"
| "times_double NInf NInf = PInf"

fun less_double :: "double \<Rightarrow> double \<Rightarrow> bool" where
  "less_double NaN b = False"
| "less_double a NaN = False"
| "less_double (Finite a) (Finite b) = (a < b)"
| "less_double a NInf = False"
| "less_double PInf b = False"
| "less_double NInf b = True"
| "less_double a PInf = True"

fun less_eq_double :: "double \<Rightarrow> double \<Rightarrow> bool" where
  "less_eq_double NaN b = False"
| "less_eq_double a NaN = False"
| "less_eq_double (Finite a) (Finite b) = (a \<le> b)"
| "less_eq_double NInf b = True"
| "less_eq_double a PInf = True"
| "less_eq_double a NInf = False"
| "less_eq_double PInf b = False"

instance ..

end

text \<open>\<open>std::floor\<close> and \<open>std::ceil\<close> return a \<open>double\<close> and leave the special values alone.\<close>

fun dfloor :: "double \<Rightarrow> double" where
  "dfloor (Finite a) = Finite (real_of_int \<lfloor>a\<rfloor>)"
| "dfloor a = a"

fun dceil :: "double \<Rightarrow> double" where
  "dceil (Finite a) = Finite (real_of_int \<lceil>a\<rceil>)"
| "dceil a = a"

text \<open>\<open>std::isfinite\<close>.\<close>

fun is_finite :: "double \<Rightarrow> bool" where
  "is_finite (Finite a) = True"
| "is_finite a = False"

text \<open>The conversion of a \<open>size_t\<close> to \<open>double\<close>.\<close>

definition of_size_t :: "size_t \<Rightarrow> double" where
  "of_size_t n = Finite (real (unat n))"

type_synonym addr = nat

text \<open>A heap cell is \<open>None\<close> once its buffer has been released.\<close>

type_synonym heap = "double list option list"

datatype error =
    RuntimeError      \<comment> \<open>\<open>std::runtime_error\<close>, the spec's FormatError\<close>
  | InvalidArgument   \<comment> \<open>\<open>std::invalid_argument\<close>\<close>
  | DomainError       \<comment> \<open>\<open>std::domain_error\<close>\<close>
  | Undefined         \<comment> \<open>undefined behaviour of the C++ program\<close>

definition bind_result :: "error + 'a \<Rightarrow> ('a \<Rightarrow> error + 'b) \<Rightarrow> error + 'b" where
  "bind_result m f = (case m of Inl e \<Rightarrow> Inl e | Inr v \<Rightarrow> f v)"

subsection \<open>The heap of pixel buffers\<close>

definition buffer :: "heap \<Rightarrow> addr option \<Rightarrow> double list option" where
  "buffer H p = (case p of None \<Rightarrow> None
                 | Some a \<Rightarrow> (if a < length H then H ! a else None))"

definition alloc :: "heap \<Rightarrow> double list \<Rightarrow> addr \<times> heap" where
  "alloc H b = (length H, H @ [Some b])"

definition release :: "heap \<Rightarrow> addr option \<Rightarrow> heap" where
  "release H p = (case p of None \<Rightarrow> H
                  | Some a \<Rightarrow> (if a < length H then H[a := None] else H))"

subsection \<open>The backing store\<close>

text \<open>
  Modelled from the spec: the backing store \<open>CImg<double>\<close> is an external library whose
  code is not part of the sources. The spec describes it as a dense buffer of
  \<open>width * height * channels\<close> samples indexed by \<open>(x, y, channel)\<close>, which exposes its
  width, height and channel count. The class always allocates with depth 1, so the depth
  axis is left out: at depth 1 the calls \<open>img(x, y, c)\<close> and \<open>img(x, y, 0, c)\<close> address
  the same sample, and \<open>img(x, y)\<close> is the sample of channel 0.
\<close>

record CImg =
  cwidth :: size_t
  cheight :: size_t
  cspectrum :: size_t
  cdata :: "addr option"

definition samples :: "size_t \<Rightarrow> size_t \<Rightarrow> size_t \<Rightarrow> nat" where
  "samples w h c = unat w * unat h * unat c"

text \<open>
  Modelled from the spec: \<open>CImg(w, h, 1, c)\<close> allocates a buffer of the requested shape
  and leaves the samples uninitialised; \<open>junk\<close> is whatever the memory held.
\<close>

definition CImg_new :: "heap \<Rightarrow> (nat \<Rightarrow> double) \<Rightarrow> size_t \<Rightarrow> size_t \<Rightarrow> size_t \<Rightarrow> CImg \<times> heap" where
  "CImg_new H junk w h c =
     (let (a, H') = alloc H (map junk [0..<samples w h c])
      in (\<lparr>cwidth = w, cheight = h, cspectrum = c, cdata = Some a\<rparr>, H'))"

text \<open>
  Modelled from the spec: \<open>CImg(w, h, 1, c, val)\<close> allocates a buffer of the requested
  shape with every sample set to \<open>val\<close>.
\<close>

definition CImg_fill :: "heap \<Rightarrow> size_t \<Rightarrow> size_t \<Rightarrow> size_t \<Rightarrow> double \<Rightarrow> CImg \<times> heap" where
  "CImg_fill H w h c val =
     (let (a, H') = alloc H (replicate (samples w h c) val)
      in (\<lparr>cwidth = w, cheight = h, cspectrum = c, cdata = Some a\<rparr>, H'))"

text \<open>Modelled from the spec: the store a move leaves behind is empty.\<close>

definition CImg_empty :: CImg where
  "CImg_empty = \<lparr>cwidth = 0, cheight = 0, cspectrum = 0, cdata = None\<rparr>"

text \<open>
  Modelled from the spec: copying a store produces a fully independent buffer with the same
  samples, no aliasing and no reference counting.
\<close>

definition CImg_copy :: "heap \<Rightarrow> CImg \<Rightarrow> error + (CImg \<times> heap)" where
  "CImg_copy H st =
     (case cdata st of
        None \<Rightarrow> Inr (st, H)
      | Some a \<Rightarrow>
          (case buffer H (Some a) of
             None \<Rightarrow> Inl Undefined
           | Some b \<Rightarrow> (let (a', H') = alloc H b in Inr (st\<lparr>cdata := Some a'\<rparr>, H'))))"

text \<open>
  Modelled from the spec: the position of the sample \<open>(x, y, c)\<close> in the dense buffer,
  the x axis running fastest and the channel slowest.
\<close>

definition offset :: "CImg \<Rightarrow> size_t \<Rightarrow> size_t \<Rightarrow> size_t \<Rightarrow> nat" where
  "offset st x y c =
     unat x + unat y * unat (cwidth st) + unat c * unat (cwidth st) * unat (cheight st)"

text \<open>
  Modelled from the spec: the indexed read \<open>img(x, y, c)\<close>. The store checks nothing; an
  access outside \<open>[0, width-1] \<times> [0, height-1] \<times> [0, channels-1]\<close> or outside a live
  buffer is a contract violation, here \<open>Undefined\<close>.
\<close>

definition CImg_get :: "heap \<Rightarrow> CImg \<Rightarrow> size_t \<Rightarrow> size_t \<Rightarrow> size_t \<Rightarrow> error + double" where
  "CImg_get H st x y c =
     (if x < cwidth st \<and> y < cheight st \<and> c < cspectrum st then
        (case buffer H (cdata st) of
           None \<Rightarrow> Inl Undefined
         | Some b \<Rightarrow>
             (if offset st x y c < length b then Inr (b ! offset st x y c)
              else Inl Undefined))
      else Inl Undefined)"

text \<open>Modelled from the spec: the indexed write \<open>img(x, y, c) = v\<close>, with the same contract.\<close>

definition CImg_set :: "heap \<Rightarrow> CImg \<Rightarrow> size_t \<Rightarrow> size_t \<Rightarrow> size_t \<Rightarrow> double \<Rightarrow> error + heap" where
  "CImg_set H st x y c v =
     (if x < cwidth st \<and> y < cheight st \<and> c < cspectrum st then
        (case cdata st of
           None \<Rightarrow> Inl Undefined
         | Some a \<Rightarrow>
             (case buffer H (Some a) of
                None \<Rightarrow> Inl Undefined
              | Some b \<Rightarrow>
                  (if offset st x y c < length b
                   then Inr (H[a := Some (b[offset st x y c := v])])
                   else Inl Undefined)))
      else Inl Undefined)"

text \<open>A store is well formed in a heap when its buffer is live and has the size of its shape.\<close>

definition CImg_wf :: "heap \<Rightarrow> CImg \<Rightarrow> bool" where
  "CImg_wf H st =
     (case buffer H (cdata st) of
        None \<Rightarrow> False
      | Some b \<Rightarrow> length b = samples (cwidth st) (cheight st) (cspectrum st))"

subsection \<open>The class \<open>Image\<close>\<close>

text \<open>
  The members are declared in the header, which is not part of the sources. Their order is
  that of the constructors' initialiser lists; their type is the one of the constructors'
  parameters and of the result of \<open>size\<close>, which is \<open>size_t\<close>.
\<close>

record Image =
  imgPath :: string
  img :: CImg
  width :: size_t
  height :: size_t
  channels :: size_t

text \<open>
  \<open>Image(const string&)\<close>. Decoding the file is the store's work: \<open>decoded\<close> is the
  store it produced for the path.
\<close>

definition Image_FromFile :: "string \<Rightarrow> CImg \<Rightarrow> error + Image" where
  "Image_FromFile path decoded =
     (let im = \<lparr>imgPath = path, img = decoded, width = cwidth decoded,
                height = cheight decoded, channels = cspectrum decoded\<rparr>
      in if channels im \<noteq> 1 \<and> channels im \<noteq> 3 then Inl RuntimeError else Inr im)"

text \<open>\<open>Image(size_t, size_t, size_t)\<close>: the store is allocated before the check.\<close>

definition Image_WithSize ::
  "heap \<Rightarrow> (nat \<Rightarrow> double) \<Rightarrow> size_t \<Rightarrow> size_t \<Rightarrow> size_t \<Rightarrow> error + (Image \<times> heap)" where
  "Image_WithSize H junk w h c =
     (let (st, H') = CImg_new H junk w h c;
          im = \<lparr>imgPath = ''new_img.png'', img = st, width = w, height = h, channels = c\<rparr>
      in if c \<noteq> 1 \<and> c \<noteq> 3 then Inl InvalidArgument else Inr (im, H'))"

text \<open>\<open>Image(size_t, size_t, size_t, double)\<close>.\<close>

definition Image_WithSizeVal ::
  "heap \<Rightarrow> size_t \<Rightarrow> size_t \<Rightarrow> size_t \<Rightarrow> double \<Rightarrow> error + (Image \<times> heap)" where
  "Image_WithSizeVal H w h c val =
     (let (st, H') = CImg_fill H w h c val;
          im = \<lparr>imgPath = ''new_img.png'', img = st, width = w, height = h, channels = c\<rparr>
      in if c \<noteq> 1 \<and> c \<noteq> 3 then Inl InvalidArgument else Inr (im, H'))"

text \<open>
  \<open>Image(CImg<double>&&)\<close>: the metadata is read from the store, then the store is moved
  into the instance. The result is the new image and the store left behind.
\<close>

definition Image_Adopt :: "CImg \<Rightarrow> Image \<times> CImg" where
  "Image_Adopt st =
     (\<lparr>imgPath = ''new_img.png'', img = st, width = cwidth st,
       height = cheight st, channels = cspectrum st\<rparr>, CImg_empty)"

text \<open>
  \<open>operator=(CImg<double>&&)\<close>: as above on an existing instance, whose former buffer
  is released.
\<close>

definition Image_assign :: "heap \<Rightarrow> Image \<Rightarrow> CImg \<Rightarrow> Image \<times> CImg \<times> heap" where
  "Image_assign H this st =
     (this\<lparr>imgPath := ''new_img.png'', width := cwidth st, height := cheight st,
           channels := cspectrum st, img := st\<rparr>,
      CImg_empty,
      release H (cdata (img this)))"

text \<open>\<open>size(dim)\<close>; the dimension is an \<open>unsigned\<close>.\<close>

definition size_dim :: "Image \<Rightarrow> 32 word \<Rightarrow> error + size_t" where
  "size_dim im d =
     (if d = 0 then Inr (width im)
      else if d = 1 then Inr (height im)
      else if d = 2 then Inr (channels im)
      else Inl DomainError)"

text \<open>
  The conversion of a \<open>double\<close> to \<open>size_t\<close> truncates towards zero and is undefined
  when the truncated value does not fit, and for an infinity or NaN.
\<close>

fun to_size_t :: "double \<Rightarrow> error + size_t" where
  "to_size_t (Finite r) =
     (if - 1 < r \<and> r < 2 ^ 64
      then Inr (word_of_int (if 0 \<le> r then \<lfloor>r\<rfloor> else \<lceil>r\<rceil>))
      else Inl Undefined)"
| "to_size_t r = Inl Undefined"

text \<open>\<open>at(w, h, c)\<close>, bilinear interpolation. (\<open>at\<close> is a constant of the library.)\<close>

definition at_im :: "heap \<Rightarrow> Image \<Rightarrow> double \<Rightarrow> double \<Rightarrow> size_t \<Rightarrow> error + double" where
  "at_im H im w h c =
     (if c \<ge> channels im then Inl DomainError
      else if w > of_size_t (width im - 1) \<or> h > of_size_t (height im - 1)
              \<or> w < 0 \<or> h < 0 then Inl DomainError
      else
        bind_result (to_size_t (dfloor w)) (\<lambda>wLow.
        bind_result (to_size_t (dfloor h)) (\<lambda>hLow.
        bind_result (to_size_t (dceil w)) (\<lambda>wHigh.
        bind_result (to_size_t (dceil h)) (\<lambda>hHigh.
        let x = w - of_size_t wLow;
            y = h - of_size_t hLow
        in
        bind_result (CImg_get H (img im) wLow hLow c) (\<lambda>z00.
        bind_result (CImg_get H (img im) wLow hHigh c) (\<lambda>z01.
        bind_result (CImg_get H (img im) wHigh hLow c) (\<lambda>z10.
        bind_result (CImg_get H (img im) wHigh hHigh c) (\<lambda>z11.
        Inr (z00 * (1 - x) * (1 - y) +
             z10 * x * (1 - y) +
             z01 * (1 - x) * y +
             z11 * x * y))))))))))"

text \<open>\<open>atH(w, h, c)\<close>, linear interpolation along a row, without checks.\<close>

definition atH :: "heap \<Rightarrow> Image \<Rightarrow> double \<Rightarrow> size_t \<Rightarrow> size_t \<Rightarrow> error + double" where
  "atH H im w h c =
     bind_result (to_size_t (dfloor w)) (\<lambda>wLow.
     bind_result (to_size_t (dceil w)) (\<lambda>wHigh.
     let x = w - of_size_t wLow in
     bind_result (CImg_get H (img im) wLow h c) (\<lambda>z0.
     bind_result (CImg_get H (img im) wHigh h c) (\<lambda>z1.
     Inr (z0 * (1 - x) + z1 * x)))))"

text \<open>
  The loop \<open>for (size_t i = i0; i < n; ++i) body\<close> over a state \<open>s\<close>, stopping at the
  first fault.
\<close>

function for_size_t ::
  "size_t \<Rightarrow> size_t \<Rightarrow> (size_t \<Rightarrow> 's \<Rightarrow> error + 's) \<Rightarrow> 's \<Rightarrow> error + 's" where
  "for_size_t i n body s =
     (if i < n then bind_result (body i s) (for_size_t (i + 1) n body) else Inr s)"
  by pat_completeness auto
termination
proof (relation "measure (\<lambda>(i, n, body, s). unat n - unat i)")
  show "wf (measure (\<lambda>(i, n, body, s). unat n - unat i))"
    by simp
next
  fix i n :: size_t and body :: "size_t \<Rightarrow> 's \<Rightarrow> error + 's" and s x :: 's
  assume "i < n"
  then have "unat (i + 1) = Suc (unat i)" and "unat i < unat n"
    by unat_arith+
  then show "((i + 1, n, body, x), (i, n, body, s))
               \<in> measure (\<lambda>(i, n, body, s). unat n - unat i)"
    by simp
qed

declare for_size_t.simps [simp del]

text \<open>
  Modelled from the spec: the copy constructor of \<open>Image\<close> is not written in the sources.
  Every member is copied, and the copy of the store owns a new buffer.
\<close>

definition Image_copy :: "heap \<Rightarrow> Image \<Rightarrow> error + (Image \<times> heap)" where
  "Image_copy H im =
     bind_result (CImg_copy H (img im)) (\<lambda>(st, H'). Inr (im\<lparr>img := st\<rparr>, H'))"

text \<open>The body of the inner loop of \<open>toGrayscale\<close>, for the pixel \<open>(w, h)\<close>.\<close>

definition gray_pixel :: "Image \<Rightarrow> Image \<Rightarrow> size_t \<Rightarrow> size_t \<Rightarrow> heap \<Rightarrow> error + heap" where
  "gray_pixel im grayscale w h H =
     bind_result (CImg_get H (img im) w h 0) (\<lambda>red.
     bind_result (CImg_get H (img im) w h 1) (\<lambda>green.
     bind_result (CImg_get H (img im) w h 2) (\<lambda>blue.
     let gray = red * Finite 0.3 + green * Finite 0.59 + blue * Finite 0.11
     in CImg_set H (img grayscale) w h 0 gray)))"

text \<open>\<open>toGrayscale()\<close>: the new image and the heap that holds its buffer.\<close>

definition toGrayscale :: "heap \<Rightarrow> (nat \<Rightarrow> double) \<Rightarrow> Image \<Rightarrow> error + (Image \<times> heap)" where
  "toGrayscale H junk im =
     (if channels im = 1 then Image_copy H im
      else
        bind_result (Image_WithSize H junk (width im) (height im) 1) (\<lambda>(grayscale, H0).
        bind_result
          (for_size_t 0 (width im)
             (\<lambda>w. for_size_t 0 (height im) (\<lambda>h. gray_pixel im grayscale w h)) H0)
          (\<lambda>H'. Inr (grayscale, H'))))"

text \<open>
  An image is well formed in a heap when its store is and its metadata is the store's shape;
  every constructor establishes this.
\<close>

definition Image_wf :: "heap \<Rightarrow> Image \<Rightarrow> bool" where
  "Image_wf H im =
     (CImg_wf H (img im) \<and> width im = cwidth (img im) \<and> height im = cheight (img im)
      \<and> channels im = cspectrum (img im))"

section \<open>Properties\<close>

text \<open>
  The simplifier is kept from folding \<open>real (unat w)\<close> into \<open>unsigned w\<close>, so that
  linear arithmetic sees the natural number.
\<close>

declare of_nat_unat [simp del]

subsection \<open>Offsets and conversions\<close>

lemma mixed_radix_bound:
  fixes a b n m :: nat
  assumes "a < n" "b < m"
  shows "a + b * n < n * m"
proof -
  have "a + b * n < n + b * n" using assms by simp
  also have "\<dots> = n * Suc b" by simp
  also have "\<dots> \<le> n * m" using assms by (intro mult_le_mono2) simp
  finally show ?thesis .
qed

lemma mixed_radix_inj:
  fixes x x' y y' n :: nat
  assumes "x < n" "x' < n" "x + y * n = x' + y' * n"
  shows "x = x' \<and> y = y'"
proof -
  have "(x + y * n) mod n = x" "(x' + y' * n) mod n = x'"
    using assms(1,2) by simp_all
  then have x: "x = x'" using assms(3) by simp
  have "(x + y * n) div n = y" "(x' + y' * n) div n = y'"
    using assms(1,2) by simp_all
  then have "y = y'" using assms(3) by simp
  with x show ?thesis by simp
qed

lemma offset_in_buffer:
  assumes "x < cwidth st" "y < cheight st" "c < cspectrum st"
  shows "offset st x y c < samples (cwidth st) (cheight st) (cspectrum st)"
proof -
  have xy: "unat x + unat y * unat (cwidth st) < unat (cwidth st) * unat (cheight st)"
    using assms by (intro mixed_radix_bound) (simp_all add: word_less_nat_alt)
  have "(unat x + unat y * unat (cwidth st)) + unat c * (unat (cwidth st) * unat (cheight st))
          < (unat (cwidth st) * unat (cheight st)) * unat (cspectrum st)"
    using xy assms by (intro mixed_radix_bound) (simp_all add: word_less_nat_alt)
  then show ?thesis
    by (simp add: offset_def samples_def mult.assoc)
qed

lemma unat_lt_2p64: "real (unat (n :: size_t)) < 2 ^ 64"
proof -
  have "unat n < 2 ^ 64" using unsigned_less [of n] by simp
  then have "real (unat n) < real (2 ^ 64)" by (simp only: of_nat_less_iff)
  then show ?thesis by simp
qed

lemma to_size_t_int:
  assumes "0 \<le> k" "real_of_int k \<le> real (unat (n :: size_t))"
  shows "to_size_t (Finite (real_of_int k)) = Inr (word_of_int k)"
    and "unat (word_of_int k :: size_t) = nat k"
proof -
  have lt: "real_of_int k < 2 ^ 64"
    using assms(2) unat_lt_2p64 [of n] by linarith
  then have "real_of_int k < real_of_int (2 ^ 64)" by simp
  then have ki: "k < 2 ^ 64" by (simp only: of_int_less_iff)
  show "to_size_t (Finite (real_of_int k)) = Inr (word_of_int k)"
    using assms(1) lt by simp
  have "unat (word_of_int k :: size_t) = nat (k mod 2 ^ 64)"
    by (simp add: unsigned_of_int take_bit_eq_mod nat_take_bit_eq)
  also have "\<dots> = nat k" using assms(1) ki by simp
  finally show "unat (word_of_int k :: size_t) = nat k" .
qed

lemma floor_ceiling_bounds:
  assumes "0 \<le> r" "r \<le> real (unat (n :: size_t))"
  shows "0 \<le> \<lfloor>r\<rfloor>" "0 \<le> \<lceil>r\<rceil>"
    and "real_of_int \<lfloor>r\<rfloor> \<le> real (unat n)" "real_of_int \<lceil>r\<rceil> \<le> real (unat n)"
proof -
  show "0 \<le> \<lfloor>r\<rfloor>" using assms(1) by simp
  show "0 \<le> \<lceil>r\<rceil>" using assms(1) by (simp add: ceiling_def)
  show "real_of_int \<lfloor>r\<rfloor> \<le> real (unat n)" using assms(2) by linarith
  have "\<lceil>r\<rceil> \<le> int (unat n)" using assms(2) by (simp add: ceiling_le_iff)
  then have "real_of_int \<lceil>r\<rceil> \<le> real_of_int (int (unat n))" by (simp only: of_int_le_iff)
  then show "real_of_int \<lceil>r\<rceil> \<le> real (unat n)" by simp
qed

lemma corner_conversion:
  assumes "0 \<le> r" "r \<le> real (unat (n :: size_t))"
  shows "to_size_t (dfloor (Finite r)) = Inr (word_of_int \<lfloor>r\<rfloor>)"
    and "to_size_t (dceil (Finite r)) = Inr (word_of_int \<lceil>r\<rceil>)"
    and "unat (word_of_int \<lfloor>r\<rfloor> :: size_t) = nat \<lfloor>r\<rfloor>"
    and "unat (word_of_int \<lceil>r\<rceil> :: size_t) = nat \<lceil>r\<rceil>"
  using floor_ceiling_bounds [OF assms] to_size_t_int [of "\<lfloor>r\<rfloor>" n] to_size_t_int [of "\<lceil>r\<rceil>" n]
  by simp_all

lemma real_unat_pred:
  assumes "(n :: size_t) \<noteq> 0"
  shows "real (unat (n - 1)) = real (unat n) - 1"
proof -
  have "0 < unat n" using assms by (simp add: unat_gt_0)
  then show ?thesis using unat_minus_one [OF assms] by (simp add: of_nat_diff)
qed

lemma corner_in_range:
  assumes "(n :: size_t) \<noteq> 0" "0 \<le> r" "r \<le> real (unat (n - 1))"
  shows "(word_of_int \<lfloor>r\<rfloor> :: size_t) < n" and "(word_of_int \<lceil>r\<rceil> :: size_t) < n"
proof -
  have pos: "0 < unat n" using assms(1) by (simp add: unat_gt_0)
  have pred: "unat (n - 1) = unat n - 1" by (rule unat_minus_one [OF assms(1)])
  have "nat \<lfloor>r\<rfloor> \<le> unat (n - 1)"
    using floor_ceiling_bounds(1,3) [OF assms(2,3)] by linarith
  then have "unat (word_of_int \<lfloor>r\<rfloor> :: size_t) < unat n"
    using pos pred corner_conversion(3) [OF assms(2,3)] by linarith
  then show "(word_of_int \<lfloor>r\<rfloor> :: size_t) < n"
    by (simp only: word_less_nat_alt)
  have "nat \<lceil>r\<rceil> \<le> unat (n - 1)"
    using floor_ceiling_bounds(2,4) [OF assms(2,3)] by linarith
  then have "unat (word_of_int \<lceil>r\<rceil> :: size_t) < unat n"
    using pos pred corner_conversion(4) [OF assms(2,3)] by linarith
  then show "(word_of_int \<lceil>r\<rceil> :: size_t) < n"
    by (simp only: word_less_nat_alt)
qed

lemma extent_nonzero:
  assumes "0 \<le> r" "r \<le> real (unat (n :: size_t)) - 1"
  shows "n \<noteq> 0" and "r \<le> real (unat (n - 1))"
proof -
  show nz: "n \<noteq> 0"
  proof
    assume "n = 0"
    then show False using assms by simp
  qed
  show "r \<le> real (unat (n - 1))" using assms(2) real_unat_pred [OF nz] by simp
qed

lemma to_size_t_not_exception: "to_size_t r = Inl e \<Longrightarrow> e = Undefined"
  by (cases r) (auto split: if_splits)

lemma to_size_t_not_DomainError: "to_size_t r \<noteq> Inl DomainError"
  using to_size_t_not_exception [of r DomainError] by auto

subsection \<open>Arithmetic of \<open>double\<close>\<close>

lemma double_times_commute: "a * b = b * (a :: double)"
  by (cases a; cases b) (simp_all add: mult.commute)

lemma double_times_one: "a * 1 = (a :: double)" "1 * a = a"
  by (cases a; simp add: one_double_def)+

lemma double_finite_times_zero: "Finite v * 0 = 0" "0 * Finite v = 0"
  by (simp_all add: zero_double_def)

lemma double_plus_zero: "a + 0 = (a :: double)" "0 + a = a"
  by (cases a; simp add: zero_double_def)+

lemma double_minus_self: "Finite v - Finite v = 0"
  by (simp add: minus_double_def zero_double_def)

lemma double_minus_zero: "a - 0 = (a :: double)"
  by (cases a) (simp_all add: minus_double_def zero_double_def)

lemma double_minus_finite: "Finite a - Finite b = Finite (a - b)"
  by (simp add: minus_double_def)

lemma double_range:
  "0 \<le> w \<and> w \<le> Finite b \<longleftrightarrow> (\<exists>r. w = Finite r \<and> 0 \<le> r \<and> r \<le> b)"
  by (cases w) (simp_all add: zero_double_def)

lemma double_less_zero: "Finite r < 0 \<longleftrightarrow> r < 0" "\<not> NaN < (0 :: double)"
  "\<not> PInf < (0 :: double)" "NInf < (0 :: double)"
  by (simp_all add: zero_double_def)

subsection \<open>Buffers and stores\<close>

lemma buffer_live: "buffer H (Some a) = Some b \<Longrightarrow> a < length H"
  by (simp add: buffer_def split: if_splits)

lemma buffer_append_old: "buffer H p = Some b \<Longrightarrow> buffer (H @ [c]) p = Some b"
  by (auto simp: buffer_def nth_append split: option.splits if_splits)

lemma buffer_append_new: "buffer (H @ [c]) (Some (length H)) = c"
  by (simp add: buffer_def)

lemma buffer_append: "buffer H p = Some b \<Longrightarrow> buffer (H @ bs) p = Some b"
  by (auto simp: buffer_def nth_append split: option.splits if_splits)

lemma buffer_fresh: "buffer H (Some (length H)) = None"
  by (simp add: buffer_def)

lemma CImg_get_in_bounds:
  assumes "buffer H (cdata st) = Some b"
    and "length b = samples (cwidth st) (cheight st) (cspectrum st)"
    and "x < cwidth st" "y < cheight st" "c < cspectrum st"
  shows "CImg_get H st x y c = Inr (b ! offset st x y c)"
  using assms offset_in_buffer [of x st y c] by (simp add: CImg_get_def)

lemma CImg_get_wf:
  assumes "CImg_wf H st" "x < cwidth st" "y < cheight st" "c < cspectrum st"
  shows "\<exists>v. CImg_get H st x y c = Inr v"
  using assms CImg_get_in_bounds [of H st _ x y c]
  by (auto simp: CImg_wf_def split: option.splits)

lemma CImg_get_not_exception: "CImg_get H st x y c = Inl e \<Longrightarrow> e = Undefined"
  by (auto simp: CImg_get_def split: if_splits option.splits)

lemma CImg_get_not_DomainError: "CImg_get H st x y c \<noteq> Inl DomainError"
  using CImg_get_not_exception [of H st x y c DomainError] by auto

lemma CImg_get_cong_buffer:
  "buffer H' (cdata st) = buffer H (cdata st) \<Longrightarrow> CImg_get H' st x y c = CImg_get H st x y c"
  by (simp add: CImg_get_def)

lemma CImg_set_heap:
  assumes "CImg_set H st x y c v = Inr H'"
  obtains a b where "cdata st = Some a" and "buffer H (Some a) = Some b"
    and "H' = H[a := Some (b[offset st x y c := v])]"
  using assms by (auto simp: CImg_set_def split: if_splits option.splits)

subsection \<open>Well-formed images\<close>

text \<open>
  Every constructor returns a well-formed image, and allocation keeps images well formed.
\<close>

lemmas ctor_defs = Image_WithSize_def Image_WithSizeVal_def Image_FromFile_def CImg_new_def CImg_fill_def alloc_def

lemma Image_wf_buffer:
  assumes "Image_wf H im"
  obtains sb where "buffer H (cdata (img im)) = Some sb"
    and "length sb = samples (width im) (height im) (channels im)"
  using assms by (auto simp: Image_wf_def CImg_wf_def split: option.splits)

lemma Image_wf_dims:
  assumes "Image_wf H im"
  shows "cwidth (img im) = width im" "cheight (img im) = height im"
    "cspectrum (img im) = channels im"
  using assms by (simp_all add: Image_wf_def)

lemma Image_wf_get:
  assumes "Image_wf H im" "x < width im" "y < height im" "c < channels im"
  shows "\<exists>v. CImg_get H (img im) x y c = Inr v"
  using assms by (intro CImg_get_wf) (simp_all add: Image_wf_def)

lemma Image_wf_append:
  assumes "Image_wf H im"
  shows "Image_wf (H @ bs) im"
proof -
  obtain sb where "buffer H (cdata (img im)) = Some sb"
    using assms by (rule Image_wf_buffer)
  then have "buffer (H @ bs) (cdata (img im)) = buffer H (cdata (img im))"
    by (simp add: buffer_append)
  with assms show ?thesis by (simp add: Image_wf_def CImg_wf_def)
qed

lemma Image_WithSize_wf:
  assumes "Image_WithSize H junk w h c = Inr (im, H')"
  shows "Image_wf H' im"
  using assms
  by (auto simp: ctor_defs Image_wf_def CImg_wf_def buffer_def split: if_splits)

lemma Image_WithSizeVal_wf:
  assumes "Image_WithSizeVal H w h c val = Inr (im, H')"
  shows "Image_wf H' im"
  using assms
  by (auto simp: ctor_defs Image_wf_def CImg_wf_def buffer_def split: if_splits)

lemma Image_FromFile_wf:
  assumes "CImg_wf H st" and "Image_FromFile path st = Inr im"
  shows "Image_wf H im"
  using assms by (auto simp: Image_FromFile_def Image_wf_def Let_def split: if_splits)

lemma Image_Adopt_wf:
  assumes "CImg_wf H st"
  shows "Image_wf H (fst (Image_Adopt st))"
  using assms by (simp add: Image_Adopt_def Image_wf_def)

lemma Image_assign_wf:
  assumes "CImg_wf H st" and "cdata st \<noteq> cdata (img this)"
    and "Image_assign H this st = (im, left, H')"
  shows "Image_wf H' im"
proof -
  have im: "im = this\<lparr>imgPath := ''new_img.png'', width := cwidth st, height := cheight st,
                      channels := cspectrum st, img := st\<rparr>"
    and H': "H' = release H (cdata (img this))"
    using assms(3) by (simp_all add: Image_assign_def)
  have "buffer H' (cdata st) = buffer H (cdata st)"
    using assms(2) unfolding H'
    by (auto simp: release_def buffer_def split: option.splits)
  with assms(1) show ?thesis
    by (simp add: im Image_wf_def CImg_wf_def)
qed

lemma size_dim_values:
  "size_dim im 0 = Inr (width im)" "size_dim im 1 = Inr (height im)"
  "size_dim im 2 = Inr (channels im)"
  "d \<noteq> 0 \<Longrightarrow> d \<noteq> 1 \<Longrightarrow> d \<noteq> 2 \<Longrightarrow> size_dim im d = Inl DomainError"
  by (simp_all add: size_dim_def)

subsection \<open>Running the model on concrete images\<close>

lemmas eval_defs = Image_wf_def CImg_wf_def buffer_def samples_def CImg_get_def
  offset_def at_im_def atH_def bind_result_def of_size_t_def
  zero_double_def one_double_def minus_double_def

lemma ceiling_half: "\<lceil>1 / 2 :: real\<rceil> = 1"
  by (simp add: ceiling_def)

lemma replicate_numeral_unfold: "replicate (numeral k) x = x # replicate (pred_numeral k) x"
  by (simp add: numeral_eq_Suc)

subsection \<open>Construction\<close>

text \<open>
  Claim C6. The constructors with an explicit size fail with \<open>InvalidArgument\<close> exactly
  when the channel count is neither 1 nor 3, and the constructor from a file fails with
  \<open>std::runtime_error\<close> (the spec's FormatError) exactly when the decoded channel count is
  neither 1 nor 3; with a channel count of 1 or 3 each of them returns an image.
\<close>

theorem construction_checks_channels:
  "(Image_WithSize H junk w h c = Inl InvalidArgument) = (c \<noteq> 1 \<and> c \<noteq> 3)
   \<and> (Image_WithSizeVal H w h c val = Inl InvalidArgument) = (c \<noteq> 1 \<and> c \<noteq> 3)
   \<and> (Image_FromFile path st = Inl RuntimeError) = (cspectrum st \<noteq> 1 \<and> cspectrum st \<noteq> 3)
   \<and> (\<exists>r. Image_WithSize H junk w h c = Inr r) = (c = 1 \<or> c = 3)
   \<and> (\<exists>r. Image_WithSizeVal H w h c val = Inr r) = (c = 1 \<or> c = 3)
   \<and> (\<exists>im. Image_FromFile path st = Inr im) = (cspectrum st = 1 \<or> cspectrum st = 3)"
  by (auto simp: ctor_defs Let_def)

theorem construction_checks_channels_witness:
  "Image_WithSize [] (\<lambda>_. 0) 2 2 2 = Inl InvalidArgument
   \<and> Image_WithSizeVal [] 2 2 4 0 = Inl InvalidArgument
   \<and> Image_FromFile ''rgba.png'' \<lparr>cwidth = 1, cheight = 1, cspectrum = 4, cdata = Some 0\<rparr>
       = Inl RuntimeError
   \<and> (\<exists>r. Image_WithSize [] (\<lambda>_. 0) 2 2 3 = Inr r)
   \<and> (\<exists>r. Image_WithSizeVal [] 2 2 1 0 = Inr r)
   \<and> (\<exists>im. Image_FromFile ''rgb.png'' \<lparr>cwidth = 1, cheight = 1, cspectrum = 3, cdata = Some 0\<rparr>
         = Inr im)"
  using construction_checks_channels [of "[]" "\<lambda>_. 0" 2 2 2 _ "''rgba.png''"
          "\<lparr>cwidth = 1, cheight = 1, cspectrum = 4, cdata = Some 0\<rparr>"]
    construction_checks_channels [of "[]" _ 2 2 4 0]
    construction_checks_channels [of "[]" "\<lambda>_. 0" 2 2 3 _ "''rgb.png''"
          "\<lparr>cwidth = 1, cheight = 1, cspectrum = 3, cdata = Some 0\<rparr>"]
    construction_checks_channels [of "[]" _ 2 2 1 0]
  by simp

text \<open>
  Claim C10. The constructors with an explicit size do not look at the width and the
  height: with 1 or 3 channels they succeed for every width and height, zero included, and
  the image stores the width and the height it was given.
\<close>

theorem WithSize_accepts_any_extent:
  assumes "c = 1 \<or> c = 3"
  shows "(\<exists>im H'. Image_WithSize H junk w h c = Inr (im, H') \<and> width im = w \<and> height im = h)
       \<and> (\<exists>im H'. Image_WithSizeVal H w h c val = Inr (im, H') \<and> width im = w \<and> height im = h)"
  using assms by (auto simp: ctor_defs)

theorem WithSize_accepts_any_extent_witness:
  "((1::size_t) = 1 \<or> (1::size_t) = 3)
   \<and> (\<exists>im H'. Image_WithSize [] (\<lambda>_. 0) 0 0 1 = Inr (im, H') \<and> width im = 0 \<and> height im = 0)
   \<and> (\<exists>im H'. Image_WithSizeVal [] 0 0 1 (Finite 7) = Inr (im, H') \<and> width im = 0 \<and> height im = 0)"
  using WithSize_accepts_any_extent [of 1 "[]" "\<lambda>_. 0" 0 0 "Finite 7"] by simp

subsection \<open>Bilinear sampling\<close>

lemma of_size_t_corner:
  assumes "0 \<le> r" "r \<le> real (unat (n :: size_t))"
  shows "Finite r - of_size_t (word_of_int \<lfloor>r\<rfloor>) = Finite (r - real_of_int \<lfloor>r\<rfloor>)"
proof -
  have "real (nat \<lfloor>r\<rfloor>) = real_of_int \<lfloor>r\<rfloor>" using assms(1) by simp
  then show ?thesis
    by (simp add: of_size_t_def corner_conversion(3) [OF assms] minus_double_def)
qed

text \<open>Once the checks have passed, \<open>at\<close> is the interpolation of four reads.\<close>

lemma at_im_checked:
  assumes "c < channels im"
    and "0 \<le> wr" "wr \<le> real (unat (width im - 1))"
    and "0 \<le> hr" "hr \<le> real (unat (height im - 1))"
  shows "at_im H im (Finite wr) (Finite hr) c =
     bind_result (CImg_get H (img im) (word_of_int \<lfloor>wr\<rfloor>) (word_of_int \<lfloor>hr\<rfloor>) c) (\<lambda>z00.
     bind_result (CImg_get H (img im) (word_of_int \<lfloor>wr\<rfloor>) (word_of_int \<lceil>hr\<rceil>) c) (\<lambda>z01.
     bind_result (CImg_get H (img im) (word_of_int \<lceil>wr\<rceil>) (word_of_int \<lfloor>hr\<rfloor>) c) (\<lambda>z10.
     bind_result (CImg_get H (img im) (word_of_int \<lceil>wr\<rceil>) (word_of_int \<lceil>hr\<rceil>) c) (\<lambda>z11.
     Inr (z00 * (1 - Finite (wr - real_of_int \<lfloor>wr\<rfloor>)) * (1 - Finite (hr - real_of_int \<lfloor>hr\<rfloor>)) +
          z10 * Finite (wr - real_of_int \<lfloor>wr\<rfloor>) * (1 - Finite (hr - real_of_int \<lfloor>hr\<rfloor>)) +
          z01 * (1 - Finite (wr - real_of_int \<lfloor>wr\<rfloor>)) * Finite (hr - real_of_int \<lfloor>hr\<rfloor>) +
          z11 * Finite (wr - real_of_int \<lfloor>wr\<rfloor>) * Finite (hr - real_of_int \<lfloor>hr\<rfloor>))))))"
proof -
  note cw = corner_conversion(1,2) [OF assms(2,3)]
  note ch = corner_conversion(1,2) [OF assms(4,5)]
  note xw = of_size_t_corner [OF assms(2,3)]
  note yh = of_size_t_corner [OF assms(4,5)]
  have chk: "\<not> (channels im \<le> c)"
    "\<not> (Finite wr > of_size_t (width im - 1) \<or> Finite hr > of_size_t (height im - 1)
        \<or> Finite wr < 0 \<or> Finite hr < 0)"
    using assms by (auto simp: of_size_t_def zero_double_def)
  show ?thesis
    unfolding at_im_def
    by (simp only: chk if_False cw ch bind_result_def sum.case Let_def xw yh)
qed

lemma at_im_not_exception:
  assumes "at_im H im w h c = Inl e"
  shows "e = DomainError \<or> e = Undefined"
  using assms
  by (auto simp: at_im_def bind_result_def Let_def
           split: if_splits sum.splits
           dest: to_size_t_not_exception CImg_get_not_exception)

lemma at_im_DomainError_iff:
  "at_im H im w h c = Inl DomainError \<longleftrightarrow>
     (channels im \<le> c \<or> w > of_size_t (width im - 1) \<or> h > of_size_t (height im - 1)
      \<or> w < 0 \<or> h < 0)"
  by (auto simp: at_im_def bind_result_def Let_def
           split: if_splits sum.splits
           dest: to_size_t_not_exception CImg_get_not_exception)

text \<open>
  For a width and a height of at least 1 and coordinates that are not NaN, the check of
  \<open>at\<close> is exact.
\<close>

lemma at_im_DomainError_nonempty:
  assumes "width im \<noteq> 0" "height im \<noteq> 0" and "w \<noteq> NaN" "h \<noteq> NaN"
  shows "at_im H im w h c = Inl DomainError \<longleftrightarrow>
     (channels im \<le> c
      \<or> \<not> (0 \<le> w \<and> w \<le> Finite (real (unat (width im)) - 1))
      \<or> \<not> (0 \<le> h \<and> h \<le> Finite (real (unat (height im)) - 1)))"
  unfolding at_im_DomainError_iff of_size_t_def
    real_unat_pred [OF assms(1)] real_unat_pred [OF assms(2)]
  using assms(3,4)
  by (cases w; cases h) (auto simp: zero_double_def)

text \<open>A NaN coordinate passes every comparison of the check.\<close>

lemma at_im_NaN:
  assumes "c < channels im" and "\<not> h > of_size_t (height im - 1)" and "\<not> h < 0"
  shows "at_im H im NaN h c = Inl Undefined"
  using assms by (simp add: at_im_def bind_result_def zero_double_def of_size_t_def not_le)

lemma at_im_value:
  assumes "Image_wf H im" and "c < channels im"
    and "0 \<le> wr" "wr \<le> real (unat (width im)) - 1"
    and "0 \<le> hr" "hr \<le> real (unat (height im)) - 1"
  shows "\<exists>z00 z01 z10 z11.
     CImg_get H (img im) (word_of_int \<lfloor>wr\<rfloor>) (word_of_int \<lfloor>hr\<rfloor>) c = Inr z00 \<and>
     CImg_get H (img im) (word_of_int \<lfloor>wr\<rfloor>) (word_of_int \<lceil>hr\<rceil>) c = Inr z01 \<and>
     CImg_get H (img im) (word_of_int \<lceil>wr\<rceil>) (word_of_int \<lfloor>hr\<rfloor>) c = Inr z10 \<and>
     CImg_get H (img im) (word_of_int \<lceil>wr\<rceil>) (word_of_int \<lceil>hr\<rceil>) c = Inr z11 \<and>
     at_im H im (Finite wr) (Finite hr) c =
       Inr (z00 * (1 - Finite (wr - real_of_int \<lfloor>wr\<rfloor>)) * (1 - Finite (hr - real_of_int \<lfloor>hr\<rfloor>)) +
            z10 * Finite (wr - real_of_int \<lfloor>wr\<rfloor>) * (1 - Finite (hr - real_of_int \<lfloor>hr\<rfloor>)) +
            z01 * (1 - Finite (wr - real_of_int \<lfloor>wr\<rfloor>)) * Finite (hr - real_of_int \<lfloor>hr\<rfloor>) +
            z11 * Finite (wr - real_of_int \<lfloor>wr\<rfloor>) * Finite (hr - real_of_int \<lfloor>hr\<rfloor>))"
proof -
  note ew = extent_nonzero [OF assms(3,4)]
  note eh = extent_nonzero [OF assms(5,6)]
  note rw = corner_in_range [OF ew(1) assms(3) ew(2)]
  note rh = corner_in_range [OF eh(1) assms(5) eh(2)]
  obtain z00 where z00: "CImg_get H (img im) (word_of_int \<lfloor>wr\<rfloor>) (word_of_int \<lfloor>hr\<rfloor>) c = Inr z00"
    using Image_wf_get [OF assms(1) rw(1) rh(1) assms(2)] by blast
  obtain z01 where z01: "CImg_get H (img im) (word_of_int \<lfloor>wr\<rfloor>) (word_of_int \<lceil>hr\<rceil>) c = Inr z01"
    using Image_wf_get [OF assms(1) rw(1) rh(2) assms(2)] by blast
  obtain z10 where z10: "CImg_get H (img im) (word_of_int \<lceil>wr\<rceil>) (word_of_int \<lfloor>hr\<rfloor>) c = Inr z10"
    using Image_wf_get [OF assms(1) rw(2) rh(1) assms(2)] by blast
  obtain z11 where z11: "CImg_get H (img im) (word_of_int \<lceil>wr\<rceil>) (word_of_int \<lceil>hr\<rceil>) c = Inr z11"
    using Image_wf_get [OF assms(1) rw(2) rh(2) assms(2)] by blast
  show ?thesis
    unfolding at_im_checked [OF assms(2,3) ew(2) assms(5) eh(2)]
    by (simp add: z00 z01 z10 z11 bind_result_def)
qed

text \<open>
  Claim C1. For a well-formed image, a channel \<open>c < channels\<close> and coordinates
  \<open>w \<in> [0, width-1]\<close>, \<open>h \<in> [0, height-1]\<close>, the four samples at the corners
  \<open>(floor w, floor h)\<close>, \<open>(floor w, ceil h)\<close>, \<open>(ceil w, floor h)\<close>, \<open>(ceil w, ceil h)\<close>
  exist, and \<open>at\<close> returns \<open>z00*(1-x)*(1-y) + z10*x*(1-y) + z01*(1-x)*y + z11*x*y\<close>
  with \<open>x = w - floor w\<close> and \<open>y = h - floor h\<close>, computed on doubles. The doubles in
  \<open>[0, width-1]\<close> are the finite ones \<open>Finite wr\<close> with \<open>0 \<le> wr \<le> width - 1\<close>
  (\<open>double_range\<close>).
\<close>

theorem at_bilinear:
  assumes "Image_wf H im" and "c < channels im"
    and "0 \<le> wr" "wr \<le> real (unat (width im)) - 1"
    and "0 \<le> hr" "hr \<le> real (unat (height im)) - 1"
  shows "\<exists>z00 z01 z10 z11.
     CImg_get H (img im) (word_of_int \<lfloor>wr\<rfloor>) (word_of_int \<lfloor>hr\<rfloor>) c = Inr z00 \<and>
     CImg_get H (img im) (word_of_int \<lfloor>wr\<rfloor>) (word_of_int \<lceil>hr\<rceil>) c = Inr z01 \<and>
     CImg_get H (img im) (word_of_int \<lceil>wr\<rceil>) (word_of_int \<lfloor>hr\<rfloor>) c = Inr z10 \<and>
     CImg_get H (img im) (word_of_int \<lceil>wr\<rceil>) (word_of_int \<lceil>hr\<rceil>) c = Inr z11 \<and>
     at_im H im (Finite wr) (Finite hr) c =
       Inr (z00 * (1 - Finite (wr - real_of_int \<lfloor>wr\<rfloor>)) * (1 - Finite (hr - real_of_int \<lfloor>hr\<rfloor>)) +
            z10 * Finite (wr - real_of_int \<lfloor>wr\<rfloor>) * (1 - Finite (hr - real_of_int \<lfloor>hr\<rfloor>)) +
            z01 * (1 - Finite (wr - real_of_int \<lfloor>wr\<rfloor>)) * Finite (hr - real_of_int \<lfloor>hr\<rfloor>) +
            z11 * Finite (wr - real_of_int \<lfloor>wr\<rfloor>) * Finite (hr - real_of_int \<lfloor>hr\<rfloor>))"
  using assms by (rule at_im_value)

theorem at_bilinear_witness:
  "Image_wf [Some [Finite 1, Finite 2, Finite 3, Finite 4]]
     \<lparr>imgPath = ''new_img.png'',
      img = \<lparr>cwidth = 2, cheight = 2, cspectrum = 1, cdata = Some 0\<rparr>,
      width = 2, height = 2, channels = 1\<rparr>
   \<and> at_im [Some [Finite 1, Finite 2, Finite 3, Finite 4]]
     \<lparr>imgPath = ''new_img.png'',
      img = \<lparr>cwidth = 2, cheight = 2, cspectrum = 1, cdata = Some 0\<rparr>,
      width = 2, height = 2, channels = 1\<rparr> (Finite (1 / 2)) (Finite (1 / 2)) 0 = Inr (Finite (5 / 2))"
  using at_bilinear [of "[Some [Finite 1, Finite 2, Finite 3, Finite 4]]"
     "\<lparr>imgPath = ''new_img.png'',
      img = \<lparr>cwidth = 2, cheight = 2, cspectrum = 1, cdata = Some 0\<rparr>,
      width = 2, height = 2, channels = 1\<rparr>" 0 "1 / 2" "1 / 2"]
  by (simp add: eval_defs ceiling_half)

lemma grid_point_formula:
  "z * (1 - 0) * (1 - 0) + z * 0 * (1 - 0) + z * (1 - 0) * 0 + z * 0 * 0
     = (if is_finite z then z else NaN)"
  by (cases z) (simp_all add: zero_double_def one_double_def minus_double_def)

lemma grid_row_formula:
  "z * (1 - 0) + z * 0 = (if is_finite z then z else NaN)"
  by (cases z) (simp_all add: zero_double_def one_double_def minus_double_def)

lemma grid_coordinate:
  "\<lfloor>real (unat (x :: size_t))\<rfloor> = int (unat x)" "\<lceil>real (unat (x :: size_t))\<rceil> = int (unat x)"
  "(word_of_int (int (unat x)) :: size_t) = x"
  "Finite (real (unat x) - real_of_int (int (unat x))) = 0"
proof -
  show "\<lfloor>real (unat x)\<rfloor> = int (unat x)" by (rule floor_of_nat)
  show "\<lceil>real (unat x)\<rceil> = int (unat x)" by (rule ceiling_of_nat)
  show "(word_of_int (int (unat x)) :: size_t) = x" by (simp add: of_nat_unat)
  show "Finite (real (unat x) - real_of_int (int (unat x))) = 0" by (simp add: zero_double_def)
qed

text \<open>
  Claim C3, as stated, fails on an image whose samples are infinite: at the grid point
  \<open>(0, 0)\<close> the formula multiplies the sample by the zero offsets, \<open>inf * 0\<close> is NaN, and
  \<open>at\<close> returns NaN where the discrete sample is infinite.
\<close>

theorem at_grid_point_infinite:
  "Image_WithSizeVal [] 2 2 1 PInf =
     Inr (\<lparr>imgPath = ''new_img.png'',
           img = \<lparr>cwidth = 2, cheight = 2, cspectrum = 1, cdata = Some 0\<rparr>,
           width = 2, height = 2, channels = 1\<rparr>, [Some [PInf, PInf, PInf, PInf]])
   \<and> CImg_get [Some [PInf, PInf, PInf, PInf]]
        \<lparr>cwidth = 2, cheight = 2, cspectrum = 1, cdata = Some 0\<rparr> 0 0 0 = Inr PInf
   \<and> at_im [Some [PInf, PInf, PInf, PInf]]
        \<lparr>imgPath = ''new_img.png'',
         img = \<lparr>cwidth = 2, cheight = 2, cspectrum = 1, cdata = Some 0\<rparr>,
         width = 2, height = 2, channels = 1\<rparr> (of_size_t 0) (of_size_t 0) 0 = Inr NaN"
  by (simp add: ctor_defs replicate_numeral_unfold eval_defs)

text \<open>
  Claim C3, amended. At a grid point \<open>(x, y)\<close> of a well-formed image, \<open>at\<close> returns the
  discrete sample at \<open>(x, y, c)\<close> whenever that sample is finite: both fractional offsets
  are zero. When the sample is an infinity or NaN, \<open>at\<close> returns NaN.
\<close>

theorem at_grid_point:
  assumes "Image_wf H im" and "c < channels im" and "x < width im" and "y < height im"
  shows "\<exists>z. CImg_get H (img im) x y c = Inr z
           \<and> (is_finite z \<longrightarrow> at_im H im (of_size_t x) (of_size_t y) c = Inr z)
           \<and> (\<not> is_finite z \<longrightarrow> at_im H im (of_size_t x) (of_size_t y) c = Inr NaN)"
proof -
  have "unat x < unat (width im)" "unat y < unat (height im)"
    using assms(3,4) by (simp_all only: word_less_nat_alt)
  then have xb: "real (unat x) \<le> real (unat (width im)) - 1"
    and yb: "real (unat y) \<le> real (unat (height im)) - 1"
    by linarith+
  have nx: "0 \<le> real (unat x)" and ny: "0 \<le> real (unat y)"
    by simp_all
  have "\<exists>z00 z01 z10 z11.
     CImg_get H (img im) x y c = Inr z00 \<and> CImg_get H (img im) x y c = Inr z01 \<and>
     CImg_get H (img im) x y c = Inr z10 \<and> CImg_get H (img im) x y c = Inr z11 \<and>
     at_im H im (of_size_t x) (of_size_t y) c =
       Inr (z00 * (1 - 0) * (1 - 0) + z10 * 0 * (1 - 0) + z01 * (1 - 0) * 0 + z11 * 0 * 0)"
    using at_im_value [OF assms(1,2) nx xb ny yb]
    unfolding grid_coordinate of_size_t_def .
  then obtain z where z: "CImg_get H (img im) x y c = Inr z"
    and "at_im H im (of_size_t x) (of_size_t y) c =
       Inr (z * (1 - 0) * (1 - 0) + z * 0 * (1 - 0) + z * (1 - 0) * 0 + z * 0 * 0)"
    by auto
  then have "at_im H im (of_size_t x) (of_size_t y) c = Inr (if is_finite z then z else NaN)"
    by (simp only: grid_point_formula)
  with z show ?thesis by auto
qed

theorem at_grid_point_witness:
  "Image_wf [Some [Finite 1, Finite 2, Finite 3, PInf]]
     \<lparr>imgPath = ''new_img.png'',
      img = \<lparr>cwidth = 2, cheight = 2, cspectrum = 1, cdata = Some 0\<rparr>,
      width = 2, height = 2, channels = 1\<rparr>
   \<and> is_finite (Finite 3)
   \<and> at_im [Some [Finite 1, Finite 2, Finite 3, PInf]]
     \<lparr>imgPath = ''new_img.png'',
      img = \<lparr>cwidth = 2, cheight = 2, cspectrum = 1, cdata = Some 0\<rparr>,
      width = 2, height = 2, channels = 1\<rparr> (of_size_t 0) (of_size_t 1) 0 = Inr (Finite 3)
   \<and> \<not> is_finite PInf
   \<and> at_im [Some [Finite 1, Finite 2, Finite 3, PInf]]
     \<lparr>imgPath = ''new_img.png'',
      img = \<lparr>cwidth = 2, cheight = 2, cspectrum = 1, cdata = Some 0\<rparr>,
      width = 2, height = 2, channels = 1\<rparr> (of_size_t 1) (of_size_t 1) 0 = Inr NaN"
  using at_grid_point [of "[Some [Finite 1, Finite 2, Finite 3, PInf]]"
     "\<lparr>imgPath = ''new_img.png'',
      img = \<lparr>cwidth = 2, cheight = 2, cspectrum = 1, cdata = Some 0\<rparr>,
      width = 2, height = 2, channels = 1\<rparr>" 0 0 1]
    at_grid_point [of "[Some [Finite 1, Finite 2, Finite 3, PInf]]"
     "\<lparr>imgPath = ''new_img.png'',
      img = \<lparr>cwidth = 2, cheight = 2, cspectrum = 1, cdata = Some 0\<rparr>,
      width = 2, height = 2, channels = 1\<rparr>" 0 1 1]
  by (simp add: eval_defs)

text \<open>
  On a well-formed image with a width and a height of at least 1, whenever \<open>at\<close> raises no
  \<open>DomainError\<close> on coordinates that are not NaN, the coordinates lie within the extent,
  the four reads of the store are in bounds, and \<open>at\<close> returns a value.
\<close>

lemma at_reads_in_bounds_not_NaN:
  assumes "Image_wf H im" and "1 \<le> width im" and "1 \<le> height im"
    and "w \<noteq> NaN" and "h \<noteq> NaN"
    and "at_im H im w h c \<noteq> Inl DomainError"
  shows "\<exists>wr hr. w = Finite wr \<and> h = Finite hr
       \<and> 0 \<le> wr \<and> wr \<le> real (unat (width im)) - 1
       \<and> 0 \<le> hr \<and> hr \<le> real (unat (height im)) - 1
       \<and> c < channels im
       \<and> (word_of_int \<lfloor>wr\<rfloor> :: size_t) < cwidth (img im)
       \<and> (word_of_int \<lceil>wr\<rceil> :: size_t) < cwidth (img im)
       \<and> (word_of_int \<lfloor>hr\<rfloor> :: size_t) < cheight (img im)
       \<and> (word_of_int \<lceil>hr\<rceil> :: size_t) < cheight (img im)
       \<and> c < cspectrum (img im)
       \<and> (\<exists>v. at_im H im w h c = Inr v)"
proof -
  have nz: "width im \<noteq> 0" "height im \<noteq> 0"
    using assms(2,3) by auto
  have c: "c < channels im"
    and w: "0 \<le> w \<and> w \<le> Finite (real (unat (width im)) - 1)"
    and h: "0 \<le> h \<and> h \<le> Finite (real (unat (height im)) - 1)"
    using assms(6) at_im_DomainError_nonempty [OF nz assms(4,5), of H c] by auto
  from w obtain wr where wr: "w = Finite wr" "0 \<le> wr" "wr \<le> real (unat (width im)) - 1"
    unfolding double_range by blast
  from h obtain hr where hr: "h = Finite hr" "0 \<le> hr" "hr \<le> real (unat (height im)) - 1"
    unfolding double_range by blast
  note ew = extent_nonzero [OF wr(2,3)]
  note eh = extent_nonzero [OF hr(2,3)]
  note rw = corner_in_range [OF ew(1) wr(2) ew(2)]
  note rh = corner_in_range [OF eh(1) hr(2) eh(2)]
  note dims = Image_wf_dims [OF assms(1)]
  from at_im_value [OF assms(1) c wr(2,3) hr(2,3)]
  have val: "\<exists>v. at_im H im w h c = Inr v" unfolding wr(1) hr(1) by blast
  show ?thesis
    unfolding dims
    using wr hr c rw rh val by blast
qed

text \<open>
  Claim C9, at a NaN coordinate. On a 2 x 2 image every comparison of the check of \<open>at\<close>
  is false for NaN, so no \<open>DomainError\<close> is raised; the conversion of \<open>floor(NaN)\<close> to
  \<open>size_t\<close> that follows is undefined, and so are the reads it feeds.
\<close>

theorem at_nan_unchecked:
  "Image_WithSizeVal [] 2 2 1 0 =
     Inr (\<lparr>imgPath = ''new_img.png'',
           img = \<lparr>cwidth = 2, cheight = 2, cspectrum = 1, cdata = Some 0\<rparr>,
           width = 2, height = 2, channels = 1\<rparr>, [Some [0, 0, 0, 0]])
   \<and> at_im [Some [0, 0, 0, 0]]
        \<lparr>imgPath = ''new_img.png'',
         img = \<lparr>cwidth = 2, cheight = 2, cspectrum = 1, cdata = Some 0\<rparr>,
         width = 2, height = 2, channels = 1\<rparr> NaN 0 0 = Inl Undefined"
  by (simp add: ctor_defs samples_def replicate_numeral_unfold at_im_def bind_result_def
        of_size_t_def zero_double_def)

text \<open>
  Claim C2, at an image of width 0. The constructor accepts the width; \<open>width - 1\<close> wraps
  to \<open>2^64 - 1\<close>, so the check of \<open>at\<close> lets the coordinate \<open>0\<close> through although the
  range \<open>[0, width-1]\<close> is empty, and the read that follows is outside the (empty) buffer:
  no \<open>DomainError\<close> is raised. For a width and a height of at least 1 and coordinates that
  are not NaN the check is exact (\<open>at_im_DomainError_nonempty\<close>).
\<close>

theorem at_zero_width_unchecked:
  "Image_WithSizeVal [] 0 1 1 0 =
     Inr (\<lparr>imgPath = ''new_img.png'',
           img = \<lparr>cwidth = 0, cheight = 1, cspectrum = 1, cdata = Some 0\<rparr>,
           width = 0, height = 1, channels = 1\<rparr>, [Some []])
   \<and> at_im [Some []]
        \<lparr>imgPath = ''new_img.png'',
         img = \<lparr>cwidth = 0, cheight = 1, cspectrum = 1, cdata = Some 0\<rparr>,
         width = 0, height = 1, channels = 1\<rparr> 0 0 0 = Inl Undefined"
  by (simp add: Image_WithSizeVal_def CImg_fill_def alloc_def samples_def
        at_im_def bind_result_def CImg_get_def of_size_t_def zero_double_def)

subsection \<open>Sampling along a row\<close>

lemma atH_not_exception:
  assumes "atH H im w h c = Inl e"
  shows "e = Undefined"
  using assms
  by (auto simp: atH_def bind_result_def Let_def split: sum.splits
           dest: to_size_t_not_exception CImg_get_not_exception)

lemma CImg_get_outside:
  assumes "\<not> y < cheight st \<or> \<not> c < cspectrum st"
  shows "CImg_get H st x y c = Inl Undefined"
  using assms by (auto simp: CImg_get_def)

text \<open>
  Claim C4, as stated, fails on an image whose samples are infinite: at the integer
  coordinate \<open>0\<close> the formula is \<open>inf * 1 + inf * 0\<close>, which is NaN, where the discrete
  sample is infinite.
\<close>

theorem atH_grid_point_infinite:
  "Image_WithSizeVal [] 2 2 1 PInf =
     Inr (\<lparr>imgPath = ''new_img.png'',
           img = \<lparr>cwidth = 2, cheight = 2, cspectrum = 1, cdata = Some 0\<rparr>,
           width = 2, height = 2, channels = 1\<rparr>, [Some [PInf, PInf, PInf, PInf]])
   \<and> CImg_get [Some [PInf, PInf, PInf, PInf]]
        \<lparr>cwidth = 2, cheight = 2, cspectrum = 1, cdata = Some 0\<rparr> 0 0 0 = Inr PInf
   \<and> atH [Some [PInf, PInf, PInf, PInf]]
        \<lparr>imgPath = ''new_img.png'',
         img = \<lparr>cwidth = 2, cheight = 2, cspectrum = 1, cdata = Some 0\<rparr>,
         width = 2, height = 2, channels = 1\<rparr> (of_size_t 0) 0 0 = Inr NaN"
  by (simp add: ctor_defs replicate_numeral_unfold eval_defs)

text \<open>
  Claim C4, amended. For a well-formed image, a row \<open>h < height\<close>, a channel
  \<open>c < channels\<close> and \<open>w \<in> [0, width-1]\<close>, \<open>atH\<close> returns \<open>z0*(1-x) + z1*x\<close> for the samples
  \<open>z0\<close>, \<open>z1\<close> at \<open>(floor w, h, c)\<close> and \<open>(ceil w, h, c)\<close> and \<open>x = w - floor w\<close>. At an
  integer-valued \<open>w\<close> this is the discrete sample at \<open>(w, h, c)\<close> whenever that sample is
  finite, and NaN when it is an infinity or NaN. \<open>atH\<close> validates nothing: on no input at
  all does it raise an exception of any kind, and a row or a channel out of range goes to
  the store as it is, which is undefined behaviour.
\<close>

theorem atH_linear:
  assumes "Image_wf H im" and "h < height im" and "c < channels im"
    and "0 \<le> wr" and "wr \<le> real (unat (width im)) - 1"
  shows "(\<exists>z0 z1.
           CImg_get H (img im) (word_of_int \<lfloor>wr\<rfloor>) h c = Inr z0 \<and>
           CImg_get H (img im) (word_of_int \<lceil>wr\<rceil>) h c = Inr z1 \<and>
           atH H im (Finite wr) h c =
             Inr (z0 * (1 - Finite (wr - real_of_int \<lfloor>wr\<rfloor>))
                  + z1 * Finite (wr - real_of_int \<lfloor>wr\<rfloor>)))
       \<and> (wr = real_of_int \<lfloor>wr\<rfloor> \<longrightarrow>
            (\<exists>z. CImg_get H (img im) (word_of_int \<lfloor>wr\<rfloor>) h c = Inr z
               \<and> (is_finite z \<longrightarrow> atH H im (Finite wr) h c = Inr z)
               \<and> (\<not> is_finite z \<longrightarrow> atH H im (Finite wr) h c = Inr NaN)))
       \<and> (\<forall>e. atH H' im' w' h' c' = Inl e \<longrightarrow> e = Undefined)
       \<and> (\<not> h2 < height im \<or> \<not> c2 < channels im \<longrightarrow>
            atH H im (Finite wr) h2 c2 = Inl Undefined)"
proof -
  note ew = extent_nonzero [OF assms(4,5)]
  note rw = corner_in_range [OF ew(1) assms(4) ew(2)]
  note cw = corner_conversion(1,2) [OF assms(4) ew(2)]
  note xw = of_size_t_corner [OF assms(4) ew(2)]
  note dims = Image_wf_dims [OF assms(1)]
  obtain z0 where z0: "CImg_get H (img im) (word_of_int \<lfloor>wr\<rfloor>) h c = Inr z0"
    using Image_wf_get [OF assms(1) rw(1) assms(2,3)] by blast
  obtain z1 where z1: "CImg_get H (img im) (word_of_int \<lceil>wr\<rceil>) h c = Inr z1"
    using Image_wf_get [OF assms(1) rw(2) assms(2,3)] by blast
  have val: "atH H im (Finite wr) h c =
      Inr (z0 * (1 - Finite (wr - real_of_int \<lfloor>wr\<rfloor>)) + z1 * Finite (wr - real_of_int \<lfloor>wr\<rfloor>))"
    unfolding atH_def
    by (simp only: cw bind_result_def sum.case Let_def xw z0 z1)
  have grid: "atH H im (Finite wr) h c = Inr (if is_finite z0 then z0 else NaN)"
    if int: "wr = real_of_int \<lfloor>wr\<rfloor>"
  proof -
    have "\<lceil>wr\<rceil> = \<lfloor>wr\<rfloor>"
      by (subst int) (simp only: ceiling_of_int floor_of_int)
    with z0 z1 have same: "z1 = z0" by simp
    have off: "Finite (wr - real_of_int \<lfloor>wr\<rfloor>) = 0"
      using int by (simp add: zero_double_def)
    show ?thesis
      unfolding val off same by (simp only: grid_row_formula)
  qed
  have outside: "atH H im (Finite wr) h2 c2 = Inl Undefined"
    if "\<not> h2 < height im \<or> \<not> c2 < channels im" for h2 c2
  proof -
    have "CImg_get H (img im) (word_of_int \<lfloor>wr\<rfloor>) h2 c2 = Inl Undefined"
      using that by (intro CImg_get_outside) (simp add: dims)
    then show ?thesis
      unfolding atH_def
      by (simp only: cw bind_result_def sum.case Let_def)
  qed
  show ?thesis
    using z0 z1 val grid outside atH_not_exception [of H' im' w' h' c']
    by auto
qed

theorem atH_linear_witness:
  "Image_wf [Some [Finite 1, Finite 2, Finite 3, PInf]]
     \<lparr>imgPath = ''new_img.png'',
      img = \<lparr>cwidth = 2, cheight = 2, cspectrum = 1, cdata = Some 0\<rparr>,
      width = 2, height = 2, channels = 1\<rparr>
   \<and> atH [Some [Finite 1, Finite 2, Finite 3, PInf]]
     \<lparr>imgPath = ''new_img.png'',
      img = \<lparr>cwidth = 2, cheight = 2, cspectrum = 1, cdata = Some 0\<rparr>,
      width = 2, height = 2, channels = 1\<rparr> (Finite (1 / 2)) 0 0 = Inr (Finite (3 / 2))
   \<and> is_finite (Finite 2)
   \<and> atH [Some [Finite 1, Finite 2, Finite 3, PInf]]
     \<lparr>imgPath = ''new_img.png'',
      img = \<lparr>cwidth = 2, cheight = 2, cspectrum = 1, cdata = Some 0\<rparr>,
      width = 2, height = 2, channels = 1\<rparr> (Finite 1) 0 0 = Inr (Finite 2)
   \<and> \<not> is_finite PInf
   \<and> atH [Some [Finite 1, Finite 2, Finite 3, PInf]]
     \<lparr>imgPath = ''new_img.png'',
      img = \<lparr>cwidth = 2, cheight = 2, cspectrum = 1, cdata = Some 0\<rparr>,
      width = 2, height = 2, channels = 1\<rparr> (Finite 1) 1 0 = Inr NaN
   \<and> atH [Some [Finite 1, Finite 2, Finite 3, PInf]]
     \<lparr>imgPath = ''new_img.png'',
      img = \<lparr>cwidth = 2, cheight = 2, cspectrum = 1, cdata = Some 0\<rparr>,
      width = 2, height = 2, channels = 1\<rparr> (Finite 1) 5 0 = Inl Undefined"
proof -
  let ?H = "[Some [Finite 1, Finite 2, Finite 3, PInf]]"
  let ?im = "\<lparr>imgPath = ''new_img.png'',
      img = \<lparr>cwidth = 2, cheight = 2, cspectrum = 1, cdata = Some 0\<rparr>,
      width = 2, height = 2, channels = 1\<rparr>"
  have wf: "Image_wf ?H ?im"
    by (simp add: eval_defs)
  have row: "(0 :: size_t) < height ?im" "(1 :: size_t) < height ?im"
    and ch: "(0 :: size_t) < channels ?im"
    by simp_all
  have half: "0 \<le> (1 / 2 :: real)" "(1 / 2 :: real) \<le> real (unat (width ?im)) - 1"
    and one: "0 \<le> (1 :: real)" "(1 :: real) \<le> real (unat (width ?im)) - 1"
    and int: "(1 :: real) = real_of_int \<lfloor>1 :: real\<rfloor>"
    by simp_all
  have z0: "CImg_get ?H (img ?im) (word_of_int \<lfloor>1 :: real\<rfloor>) 0 0 = Inr (Finite 2)"
    and z1: "CImg_get ?H (img ?im) (word_of_int \<lfloor>1 :: real\<rfloor>) 1 0 = Inr PInf"
    by (simp_all add: eval_defs)
  have "atH ?H ?im (Finite (1 / 2)) 0 0 = Inr (Finite (3 / 2))"
    using atH_linear [OF wf row(1) ch half] by (simp add: eval_defs ceiling_half)
  moreover have "atH ?H ?im (Finite 1) 0 0 = Inr (Finite 2)"
    using atH_linear [OF wf row(1) ch one] int z0
    by (auto simp: one_double_def minus_double_def)
  moreover have "atH ?H ?im (Finite 1) 1 0 = Inr NaN"
    using atH_linear [OF wf row(2) ch one] int z1
    by (auto simp: one_double_def minus_double_def)
  moreover have "atH ?H ?im (Finite 1) 5 0 = Inl Undefined"
    using atH_linear [OF wf row(1) ch one, where ?h2.0 = 5 and ?c2.0 = 0] by simp
  ultimately show ?thesis
    using wf by simp
qed

subsection \<open>Loops\<close>

text \<open>
  Two rules for \<open>for_size_t\<close>: an invariant indexed by the counter and kept by every step
  gives a result that satisfies it at the bound, and a property kept by every step that
  returns holds of whatever the loop returns.
\<close>

lemma for_size_t_invariant:
  assumes "i \<le> n" and "I i s"
    and "\<And>j t. i \<le> j \<Longrightarrow> j < n \<Longrightarrow> I j t \<Longrightarrow> \<exists>t'. body j t = Inr t' \<and> I (j + 1) t'"
  shows "\<exists>t. for_size_t i n body s = Inr t \<and> I n t"
  using assms
proof (induction i n body s rule: for_size_t.induct)
  case (1 i n body s)
  show ?case
  proof (cases "i < n")
    case True
    obtain t' where t': "body i s = Inr t'" "I (i + 1) t'"
      using "1.prems"(3) [OF order_refl True "1.prems"(2)] by blast
    have le: "i + 1 \<le> n" using True by (rule inc_le)
    have up: "i \<le> i + 1" using True by unat_arith
    have "\<exists>t. for_size_t (i + 1) n body t' = Inr t \<and> I n t"
    proof (rule "1.IH" [OF True le t'(2)])
      fix j t
      assume "i + 1 \<le> j" "j < n" "I j t"
      with up have "i \<le> j" by simp
      then show "\<exists>t'. body j t = Inr t' \<and> I (j + 1) t'"
        using "1.prems"(3) \<open>j < n\<close> \<open>I j t\<close> by blast
    qed
    then show ?thesis
      by (subst for_size_t.simps) (simp add: True t'(1) bind_result_def)
  next
    case False
    with "1.prems"(1) have "i = n" by simp
    with "1.prems"(2) False show ?thesis
      by (subst for_size_t.simps) simp
  qed
qed

lemma for_size_t_preserves:
  assumes "Q s" and "\<And>j t t'. Q t \<Longrightarrow> body j t = Inr t' \<Longrightarrow> Q t'"
    and "for_size_t i n body s = Inr t"
  shows "Q t"
  using assms
proof (induction i n body s rule: for_size_t.induct)
  case (1 i n body s)
  show ?case
  proof (cases "i < n")
    case True
    from "1.prems"(3) obtain s' where s': "body i s = Inr s'"
      and rest: "for_size_t (i + 1) n body s' = Inr t"
      by (subst (asm) for_size_t.simps) (auto simp: True bind_result_def split: sum.splits)
    have "Q s'" using "1.prems"(1,2) s' by blast
    then show ?thesis
      using "1.IH" [OF True _ _ rest] "1.prems"(2) by blast
  next
    case False
    with "1.prems"(3) have "t = s"
      by (subst (asm) for_size_t.simps) simp
    with "1.prems"(1) show ?thesis by simp
  qed
qed

subsection \<open>Grayscale conversion\<close>

lemma gray_pixel_step:
  assumes wf: "Image_wf H im" and rgb: "channels im = 3"
    and src: "buffer H (cdata (img im)) = Some sb"
    and gs: "img grayscale =
      \<lparr>cwidth = width im, cheight = height im, cspectrum = 1, cdata = Some (length H)\<rparr>"
    and len: "length b = unat (width im) * unat (height im)"
    and w: "w < width im" and h: "h < height im"
  shows "gray_pixel im grayscale w h (H @ [Some b]) =
     Inr (H @ [Some (b[unat w + unat h * unat (width im) :=
            sb ! offset (img im) w h 0 * Finite 0.3 + sb ! offset (img im) w h 1 * Finite 0.59
            + sb ! offset (img im) w h 2 * Finite 0.11])])"
proof -
  note dims = Image_wf_dims [OF wf]
  have lsb: "length sb = samples (cwidth (img im)) (cheight (img im)) (cspectrum (img im))"
    using wf src by (simp add: Image_wf_def CImg_wf_def)
  have src': "buffer (H @ [Some b]) (cdata (img im)) = Some sb"
    by (rule buffer_append_old [OF src])
  have inb: "w < cwidth (img im)" "h < cheight (img im)"
    using w h by (simp_all add: dims)
  have ch: "(0 :: size_t) < cspectrum (img im)" "(1 :: size_t) < cspectrum (img im)"
    "(2 :: size_t) < cspectrum (img im)"
    by (simp_all add: dims rgb)
  have red: "CImg_get (H @ [Some b]) (img im) w h 0 = Inr (sb ! offset (img im) w h 0)"
    by (rule CImg_get_in_bounds [OF src' lsb inb ch(1)])
  have green: "CImg_get (H @ [Some b]) (img im) w h 1 = Inr (sb ! offset (img im) w h 1)"
    by (rule CImg_get_in_bounds [OF src' lsb inb ch(2)])
  have blue: "CImg_get (H @ [Some b]) (img im) w h 2 = Inr (sb ! offset (img im) w h 2)"
    by (rule CImg_get_in_bounds [OF src' lsb inb ch(3)])
  have off: "offset (img grayscale) w h 0 = unat w + unat h * unat (width im)"
    by (simp add: offset_def gs)
  have "unat w < unat (width im)" "unat h < unat (height im)"
    using w h by (simp_all only: word_less_nat_alt)
  then have bound: "unat w + unat h * unat (width im) < length b"
    unfolding len by (rule mixed_radix_bound)
  have set: "CImg_set (H @ [Some b]) (img grayscale) w h 0 v =
      Inr (H @ [Some (b[unat w + unat h * unat (width im) := v])])" for v
    unfolding CImg_set_def off
    by (simp add: gs w h buffer_append_new bound)
  show ?thesis
    unfolding gray_pixel_def
    by (simp only: red green blue bind_result_def sum.case Let_def set)
qed

lemma gray_loops:
  fixes im :: Image and sb :: "double list"
  defines "nW \<equiv> unat (width im)" and "nH \<equiv> unat (height im)"
  defines "Ln \<equiv> \<lambda>x y. sb ! (x + y * nW) * Finite 0.3 + sb ! (x + y * nW + nW * nH) * Finite 0.59
                       + sb ! (x + y * nW + 2 * nW * nH) * Finite 0.11"
  assumes wf: "Image_wf H im" and rgb: "channels im = 3"
    and src: "buffer H (cdata (img im)) = Some sb"
    and gs: "img grayscale =
      \<lparr>cwidth = width im, cheight = height im, cspectrum = 1, cdata = Some (length H)\<rparr>"
    and len0: "length b0 = nW * nH"
  shows "\<exists>b. for_size_t 0 (width im)
               (\<lambda>w. for_size_t 0 (height im) (\<lambda>h. gray_pixel im grayscale w h))
               (H @ [Some b0]) = Inr (H @ [Some b])
           \<and> length b = nW * nH
           \<and> (\<forall>x<nW. \<forall>y<nH. b ! (x + y * nW) = Ln x y)"
proof -
  note dims = Image_wf_dims [OF wf]
  define Inner where "Inner = (\<lambda>(w :: size_t) (h :: size_t) (H' :: heap).
      \<exists>b. H' = H @ [Some b] \<and> length b = nW * nH
        \<and> (\<forall>x<nW. \<forall>y<nH. x < unat w \<or> (x = unat w \<and> y < unat h) \<longrightarrow> b ! (x + y * nW) = Ln x y))"
  define Outer where "Outer = (\<lambda>(w :: size_t) (H' :: heap).
      \<exists>b. H' = H @ [Some b] \<and> length b = nW * nH
        \<and> (\<forall>x<nW. \<forall>y<nH. x < unat w \<longrightarrow> b ! (x + y * nW) = Ln x y))"
  have pixel: "\<exists>t'. gray_pixel im grayscale w h t = Inr t' \<and> Inner w (h + 1) t'"
    if w: "w < width im" and h: "h < height im" and inv: "Inner w h t" for w h t
  proof -
    from inv obtain b where t: "t = H @ [Some b]" and lb: "length b = nW * nH"
      and filled: "\<And>x y. x < nW \<Longrightarrow> y < nH \<Longrightarrow> x < unat w \<or> (x = unat w \<and> y < unat h)
                   \<Longrightarrow> b ! (x + y * nW) = Ln x y"
      unfolding Inner_def by blast
    have uw: "unat w < nW" and uh: "unat h < nH"
      using w h unfolding nW_def nH_def by (simp_all only: word_less_nat_alt)
    have suc: "unat (h + 1) = Suc (unat h)" using h by unat_arith
    have val: "sb ! offset (img im) w h 0 * Finite 0.3 + sb ! offset (img im) w h 1 * Finite 0.59
                + sb ! offset (img im) w h 2 * Finite 0.11 = Ln (unat w) (unat h)"
      by (simp add: offset_def dims Ln_def nW_def nH_def)
    let ?b = "b[unat w + unat h * nW := Ln (unat w) (unat h)]"
    have step: "gray_pixel im grayscale w h t = Inr (H @ [Some ?b])"
      unfolding t
      using gray_pixel_step [OF wf rgb src gs lb [unfolded nW_def nH_def] w h]
      unfolding val by (simp add: nW_def)
    have idx: "unat w + unat h * nW < length b"
      unfolding lb using uw uh by (rule mixed_radix_bound)
    have "?b ! (x + y * nW) = Ln x y"
      if x: "x < nW" and y: "y < nH" and d: "x < unat w \<or> (x = unat w \<and> y < unat (h + 1))" for x y
    proof (cases "x = unat w \<and> y = unat h")
      case True
      then show ?thesis using idx by simp
    next
      case False
      then have ne: "unat w + unat h * nW \<noteq> x + y * nW"
        using mixed_radix_inj [OF uw x] by blast
      have "x < unat w \<or> (x = unat w \<and> y < unat h)"
        using d False unfolding suc by auto
      then have "b ! (x + y * nW) = Ln x y" by (rule filled [OF x y])
      then show ?thesis using ne by simp
    qed
    then have "Inner w (h + 1) (H @ [Some ?b])"
      unfolding Inner_def using lb by auto
    with step show ?thesis by blast
  qed
  have column: "\<exists>t'. for_size_t 0 (height im) (\<lambda>h. gray_pixel im grayscale w h) t = Inr t'
                  \<and> Outer (w + 1) t'"
    if w: "w < width im" and inv: "Outer w t" for w t
  proof -
    have start: "Inner w 0 t"
      using inv unfolding Outer_def Inner_def by auto
    have "\<exists>t'. for_size_t 0 (height im) (\<lambda>h. gray_pixel im grayscale w h) t = Inr t'
             \<and> Inner w (height im) t'"
      by (rule for_size_t_invariant [where I = "Inner w", OF _ start]) (simp_all add: pixel w)
    then obtain t' where run: "for_size_t 0 (height im) (\<lambda>h. gray_pixel im grayscale w h) t = Inr t'"
      and fin: "Inner w (height im) t'" by blast
    have suc: "unat (w + 1) = Suc (unat w)" using w by unat_arith
    have "Outer (w + 1) t'"
      using fin unfolding Outer_def Inner_def suc nH_def [symmetric]
      by (auto simp: less_Suc_eq)
    with run show ?thesis by blast
  qed
  have start: "Outer 0 (H @ [Some b0])"
    unfolding Outer_def using len0 by simp
  have "\<exists>t. for_size_t 0 (width im)
               (\<lambda>w. for_size_t 0 (height im) (\<lambda>h. gray_pixel im grayscale w h))
               (H @ [Some b0]) = Inr t \<and> Outer (width im) t"
    by (rule for_size_t_invariant [where I = Outer, OF _ start]) (simp_all add: column)
  then show ?thesis
    unfolding Outer_def nW_def [symmetric] by auto
qed

lemma Image_WithSize_gray:
  "Image_WithSize H junk w h 1 =
     Inr (\<lparr>imgPath = ''new_img.png'',
           img = \<lparr>cwidth = w, cheight = h, cspectrum = 1, cdata = Some (length H)\<rparr>,
           width = w, height = h, channels = 1\<rparr>,
          H @ [Some (map junk [0..<unat w * unat h])])"
  by (simp add: ctor_defs samples_def)

lemma toGrayscale_rgb:
  assumes wf: "Image_wf H im" and rgb: "channels im = 3"
    and src: "buffer H (cdata (img im)) = Some sb"
  shows "\<exists>b. toGrayscale H junk im =
           Inr (\<lparr>imgPath = ''new_img.png'',
                 img = \<lparr>cwidth = width im, cheight = height im, cspectrum = 1,
                        cdata = Some (length H)\<rparr>,
                 width = width im, height = height im, channels = 1\<rparr>, H @ [Some b])
         \<and> length b = unat (width im) * unat (height im)
         \<and> (\<forall>x<unat (width im). \<forall>y<unat (height im).
              b ! (x + y * unat (width im)) =
                sb ! (x + y * unat (width im)) * Finite 0.3
                + sb ! (x + y * unat (width im) + unat (width im) * unat (height im)) * Finite 0.59
                + sb ! (x + y * unat (width im) + 2 * unat (width im) * unat (height im)) * Finite 0.11)"
proof -
  let ?g = "\<lparr>imgPath = ''new_img.png'',
             img = \<lparr>cwidth = width im, cheight = height im, cspectrum = 1,
                    cdata = Some (length H)\<rparr>,
             width = width im, height = height im, channels = 1\<rparr>"
  let ?b0 = "map junk [0..<unat (width im) * unat (height im)]"
  have gs: "img ?g = \<lparr>cwidth = width im, cheight = height im, cspectrum = 1,
                      cdata = Some (length H)\<rparr>"
    by simp
  have len0: "length ?b0 = unat (width im) * unat (height im)"
    by simp
  from gray_loops [OF wf rgb src gs len0]
  obtain b where run: "for_size_t 0 (width im)
               (\<lambda>w. for_size_t 0 (height im) (\<lambda>h. gray_pixel im ?g w h))
               (H @ [Some ?b0]) = Inr (H @ [Some b])"
    and lb: "length b = unat (width im) * unat (height im)"
    and px: "\<forall>x<unat (width im). \<forall>y<unat (height im).
              b ! (x + y * unat (width im)) =
                sb ! (x + y * unat (width im)) * Finite 0.3
                + sb ! (x + y * unat (width im) + unat (width im) * unat (height im)) * Finite 0.59
                + sb ! (x + y * unat (width im) + 2 * unat (width im) * unat (height im)) * Finite 0.11"
    by blast
  have "toGrayscale H junk im = Inr (?g, H @ [Some b])"
    unfolding toGrayscale_def Image_WithSize_gray
    by (simp add: rgb bind_result_def run)
  with lb px show ?thesis by blast
qed

lemma gray_pixel_frame:
  assumes "cdata (img grayscale) = Some (length H)"
    and "\<exists>b. t = H @ [Some b]"
    and "gray_pixel im grayscale w h t = Inr t'"
  shows "\<exists>b'. t' = H @ [Some b']"
proof -
  from assms(2) obtain b where t: "t = H @ [Some b]" by blast
  from assms(3) obtain v where "CImg_set t (img grayscale) w h 0 v = Inr t'"
    by (auto simp: gray_pixel_def bind_result_def Let_def split: sum.splits)
  then obtain a b' where "cdata (img grayscale) = Some a"
    and "t' = t[a := Some (b'[offset (img grayscale) w h 0 := v])]"
    by (rule CImg_set_heap)
  with assms(1) have "t' = (H @ [Some b])[length H := Some (b'[offset (img grayscale) w h 0 := v])]"
    by (simp add: t)
  then show ?thesis by simp
qed

lemma toGrayscale_grows:
  assumes "toGrayscale H junk im = Inr (g, H')"
  shows "\<exists>bs. H' = H @ bs"
proof (cases "channels im = 1")
  case True
  with assms have "Image_copy H im = Inr (g, H')"
    by (simp add: toGrayscale_def)
  then show ?thesis
    by (auto simp: Image_copy_def CImg_copy_def bind_result_def alloc_def
             split: option.splits sum.splits)
next
  case False
  let ?gs = "\<lparr>imgPath = ''new_img.png'',
           img = \<lparr>cwidth = width im, cheight = height im, cspectrum = 1, cdata = Some (length H)\<rparr>,
           width = width im, height = height im, channels = 1\<rparr>"
  let ?H0 = "H @ [Some (map junk [0..<unat (width im) * unat (height im)])]"
  from assms False have run: "for_size_t 0 (width im)
             (\<lambda>w. for_size_t 0 (height im) (\<lambda>h. gray_pixel im ?gs w h)) ?H0 = Inr H'"
    unfolding toGrayscale_def Image_WithSize_gray
    by (auto simp: bind_result_def split: sum.splits)
  have cd: "cdata (img ?gs) = Some (length H)" by simp
  have "\<exists>b. H' = H @ [Some b]"
  proof (rule for_size_t_preserves [where Q = "\<lambda>t. \<exists>b. t = H @ [Some b]", OF _ _ run])
    show "\<exists>b. ?H0 = H @ [Some b]" by blast
  next
    fix j t t'
    assume q: "\<exists>b. t = H @ [Some b]"
      and col: "for_size_t 0 (height im) (\<lambda>h. gray_pixel im ?gs j h) t = Inr t'"
    show "\<exists>b. t' = H @ [Some b]"
      by (rule for_size_t_preserves [where Q = "\<lambda>t. \<exists>b. t = H @ [Some b]", OF q _ col])
         (rule gray_pixel_frame [OF cd])
  qed
  then show ?thesis by blast
qed

lemma toGrayscale_gray:
  assumes wf: "Image_wf H im" and gray: "channels im = 1"
    and src: "buffer H (cdata (img im)) = Some sb"
  shows "toGrayscale H junk im =
           Inr (im\<lparr>img := (img im)\<lparr>cdata := Some (length H)\<rparr>\<rparr>, H @ [Some sb])"
proof -
  from src obtain a where a: "cdata (img im) = Some a"
    by (cases "cdata (img im)") (simp_all add: buffer_def)
  show ?thesis
    using src by (simp add: toGrayscale_def gray Image_copy_def CImg_copy_def a bind_result_def alloc_def)
qed

lemma toGrayscale_channels:
  assumes "toGrayscale H junk im = Inr (g, H')"
  shows "channels g = 1"
proof (cases "channels im = 1")
  case True
  with assms show ?thesis
    by (auto simp: toGrayscale_def Image_copy_def bind_result_def split: sum.splits)
next
  case False
  with assms show ?thesis
    unfolding toGrayscale_def Image_WithSize_gray
    by (auto simp: bind_result_def split: sum.splits)
qed

text \<open>
  Claim C5. On a well-formed image with 3 channels, \<open>toGrayscale\<close> returns a new
  well-formed image of the same width and height with 1 channel, whose sample at every pixel
  \<open>(x, y)\<close> is \<open>0.3*R + 0.59*G + 0.11*B\<close> for the samples \<open>R\<close>, \<open>G\<close>, \<open>B\<close> of the source
  at the channels 0, 1, 2 of that pixel. Nothing is rounded or clamped. The witness is a
  uniformly red image, which yields 76.5 at every pixel.
\<close>

theorem toGrayscale_luminance:
  assumes "Image_wf H im" and "channels im = 3"
  shows "\<exists>g H'. toGrayscale H junk im = Inr (g, H')
           \<and> width g = width im \<and> height g = height im \<and> channels g = 1
           \<and> Image_wf H' g
           \<and> (\<forall>x y. x < width im \<longrightarrow> y < height im \<longrightarrow>
                (\<exists>R G B. CImg_get H (img im) x y 0 = Inr R
                        \<and> CImg_get H (img im) x y 1 = Inr G
                        \<and> CImg_get H (img im) x y 2 = Inr B
                        \<and> CImg_get H' (img g) x y 0 = Inr (Finite 0.3 * R + Finite 0.59 * G + Finite 0.11 * B)))"
proof -
  note dims = Image_wf_dims [OF assms(1)]
  obtain sb where src: "buffer H (cdata (img im)) = Some sb"
    and lsb: "length sb = samples (width im) (height im) (channels im)"
    using assms(1) by (rule Image_wf_buffer)
  let ?st = "\<lparr>cwidth = width im, cheight = height im, cspectrum = 1, cdata = Some (length H)\<rparr>"
  let ?g = "\<lparr>imgPath = ''new_img.png'', img = ?st,
             width = width im, height = height im, channels = 1\<rparr>"
  from toGrayscale_rgb [OF assms src, of junk]
  obtain b where run: "toGrayscale H junk im = Inr (?g, H @ [Some b])"
    and lb: "length b = unat (width im) * unat (height im)"
    and px: "\<And>x y. x < unat (width im) \<Longrightarrow> y < unat (height im) \<Longrightarrow>
              b ! (x + y * unat (width im)) =
                sb ! (x + y * unat (width im)) * Finite 0.3
                + sb ! (x + y * unat (width im) + unat (width im) * unat (height im)) * Finite 0.59
                + sb ! (x + y * unat (width im) + 2 * unat (width im) * unat (height im)) * Finite 0.11"
    by blast
  have bg: "buffer (H @ [Some b]) (cdata ?st) = Some b"
    by (simp add: buffer_append_new)
  have lg: "length b = samples (cwidth ?st) (cheight ?st) (cspectrum ?st)"
    by (simp add: lb samples_def)
  have wfg: "Image_wf (H @ [Some b]) ?g"
    using bg lg by (simp add: Image_wf_def CImg_wf_def)
  have pixel: "\<exists>R G B. CImg_get H (img im) x y 0 = Inr R
                        \<and> CImg_get H (img im) x y 1 = Inr G
                        \<and> CImg_get H (img im) x y 2 = Inr B
                        \<and> CImg_get (H @ [Some b]) (img ?g) x y 0 = Inr (Finite 0.3 * R + Finite 0.59 * G + Finite 0.11 * B)"
    if x: "x < width im" and y: "y < height im" for x y
  proof -
    have lsb': "length sb = samples (cwidth (img im)) (cheight (img im)) (cspectrum (img im))"
      using lsb by (simp add: dims)
    have inb: "x < cwidth (img im)" "y < cheight (img im)"
      using x y by (simp_all add: dims)
    have ch: "(0 :: size_t) < cspectrum (img im)" "(1 :: size_t) < cspectrum (img im)"
      "(2 :: size_t) < cspectrum (img im)"
      by (simp_all add: dims assms(2))
    have R: "CImg_get H (img im) x y 0 = Inr (sb ! (unat x + unat y * unat (width im)))"
      unfolding CImg_get_in_bounds [OF src lsb' inb ch(1)]
      by (simp add: offset_def dims)
    have G: "CImg_get H (img im) x y 1 =
        Inr (sb ! (unat x + unat y * unat (width im) + unat (width im) * unat (height im)))"
      unfolding CImg_get_in_bounds [OF src lsb' inb ch(2)]
      by (simp add: offset_def dims)
    have B: "CImg_get H (img im) x y 2 =
        Inr (sb ! (unat x + unat y * unat (width im) + 2 * unat (width im) * unat (height im)))"
      unfolding CImg_get_in_bounds [OF src lsb' inb ch(3)]
      by (simp add: offset_def dims)
    have xg: "x < cwidth ?st" "y < cheight ?st" "(0 :: size_t) < cspectrum ?st"
      using x y by simp_all
    have gray: "CImg_get (H @ [Some b]) (img ?g) x y 0 = Inr (b ! (unat x + unat y * unat (width im)))"
      using CImg_get_in_bounds [OF bg lg xg] by (simp add: offset_def)
    have "unat x < unat (width im)" "unat y < unat (height im)"
      using x y by (simp_all only: word_less_nat_alt)
    from px [OF this] show ?thesis
      unfolding R G B gray by (simp add: double_times_commute [of "Finite k" for k])
  qed
  show ?thesis
    using run wfg pixel by auto
qed

theorem toGrayscale_luminance_witness:
  "Image_wf [Some [Finite 255, Finite 255, 0, 0, 0, 0]]
     \<lparr>imgPath = ''red.png'',
      img = \<lparr>cwidth = 2, cheight = 1, cspectrum = 3, cdata = Some 0\<rparr>,
      width = 2, height = 1, channels = 3\<rparr>
   \<and> toGrayscale [Some [Finite 255, Finite 255, 0, 0, 0, 0]] (\<lambda>_. 0)
     \<lparr>imgPath = ''red.png'',
      img = \<lparr>cwidth = 2, cheight = 1, cspectrum = 3, cdata = Some 0\<rparr>,
      width = 2, height = 1, channels = 3\<rparr>
     = Inr (\<lparr>imgPath = ''new_img.png'',
            img = \<lparr>cwidth = 2, cheight = 1, cspectrum = 1, cdata = Some 1\<rparr>,
            width = 2, height = 1, channels = 1\<rparr>,
           [Some [Finite 255, Finite 255, 0, 0, 0, 0], Some [Finite 76.5, Finite 76.5]])"
  using toGrayscale_luminance [of "[Some [Finite 255, Finite 255, 0, 0, 0, 0]]"
     "\<lparr>imgPath = ''red.png'',
      img = \<lparr>cwidth = 2, cheight = 1, cspectrum = 3, cdata = Some 0\<rparr>,
      width = 2, height = 1, channels = 3\<rparr>" "\<lambda>_. 0"]
  by (simp add: eval_defs toGrayscale_def ctor_defs gray_pixel_def CImg_set_def
        for_size_t.simps upt_rec)

text \<open>
  Claim C8. Whenever \<open>toGrayscale\<close> returns on a well-formed image, every buffer that
  was live before, the source's among them, is unchanged, and so is every sample of the
  source; it does return when the image has 1 or 3 channels. On an image with 1 channel the
  result has the same width, height, channel count and samples, and its buffer is a new
  one: its address differs from the source's, it was not live before, and a write through
  the result leaves the source's buffer as it was.
\<close>

theorem toGrayscale_frame:
  assumes "Image_wf H im"
  shows "(\<forall>g H'. toGrayscale H junk im = Inr (g, H') \<longrightarrow>
            (\<forall>p b. buffer H p = Some b \<longrightarrow> buffer H' p = Some b)
            \<and> Image_wf H' im
            \<and> (\<forall>x y c. CImg_get H' (img im) x y c = CImg_get H (img im) x y c))
       \<and> (channels im = 1 \<or> channels im = 3 \<longrightarrow> (\<exists>g H'. toGrayscale H junk im = Inr (g, H')))
       \<and> (channels im = 1 \<longrightarrow>
            (\<exists>g H'. toGrayscale H junk im = Inr (g, H')
               \<and> width g = width im \<and> height g = height im \<and> channels g = channels im
               \<and> Image_wf H' g
               \<and> (\<forall>x y c. CImg_get H' (img g) x y c = CImg_get H (img im) x y c)
               \<and> cdata (img g) \<noteq> cdata (img im)
               \<and> buffer H (cdata (img g)) = None
               \<and> buffer H' (cdata (img g)) = buffer H (cdata (img im))
               \<and> (\<forall>x y c v H''. CImg_set H' (img g) x y c v = Inr H'' \<longrightarrow>
                     buffer H'' (cdata (img im)) = buffer H (cdata (img im)))))"
proof -
  obtain sb where src: "buffer H (cdata (img im)) = Some sb"
    and lsb: "length sb = samples (width im) (height im) (channels im)"
    using assms by (rule Image_wf_buffer)
  from src obtain a where a: "cdata (img im) = Some a" and alt: "a < length H"
    by (cases "cdata (img im)") (auto simp: buffer_def split: if_splits)
  have frame: "(\<forall>p b. buffer H p = Some b \<longrightarrow> buffer H' p = Some b)
            \<and> Image_wf H' im
            \<and> (\<forall>x y c. CImg_get H' (img im) x y c = CImg_get H (img im) x y c)"
    if "toGrayscale H junk im = Inr (g, H')" for g H'
  proof -
    from that obtain bs where H': "H' = H @ bs"
      using toGrayscale_grows by blast
    have "buffer H' (cdata (img im)) = buffer H (cdata (img im))"
      unfolding H' using src by (simp add: buffer_append)
    then have "CImg_get H' (img im) x y c = CImg_get H (img im) x y c" for x y c
      by (rule CImg_get_cong_buffer)
    then show ?thesis
      unfolding H' using Image_wf_append [OF assms] by (simp add: buffer_append)
  qed
  have total: "\<exists>g H'. toGrayscale H junk im = Inr (g, H')"
    if "channels im = 1 \<or> channels im = 3"
    using that toGrayscale_gray [OF assms _ src, of junk] toGrayscale_rgb [OF assms _ src, of junk]
    by blast
  have copy: "\<exists>g H'. toGrayscale H junk im = Inr (g, H')
               \<and> width g = width im \<and> height g = height im \<and> channels g = channels im
               \<and> Image_wf H' g
               \<and> (\<forall>x y c. CImg_get H' (img g) x y c = CImg_get H (img im) x y c)
               \<and> cdata (img g) \<noteq> cdata (img im)
               \<and> buffer H (cdata (img g)) = None
               \<and> buffer H' (cdata (img g)) = buffer H (cdata (img im))
               \<and> (\<forall>x y c v H''. CImg_set H' (img g) x y c v = Inr H'' \<longrightarrow>
                     buffer H'' (cdata (img im)) = buffer H (cdata (img im)))"
    if gray: "channels im = 1"
  proof -
    let ?g = "im\<lparr>img := (img im)\<lparr>cdata := Some (length H)\<rparr>\<rparr>"
    let ?H' = "H @ [Some sb]"
    have run: "toGrayscale H junk im = Inr (?g, ?H')"
      by (rule toGrayscale_gray [OF assms gray src])
    have bg: "buffer ?H' (cdata (img ?g)) = Some sb"
      by (simp add: buffer_append_new)
    have wfg: "Image_wf ?H' ?g"
      using assms bg lsb by (simp add: Image_wf_def CImg_wf_def)
    have same: "CImg_get ?H' (img ?g) x y c = CImg_get H (img im) x y c" for x y c
      using bg src by (simp add: CImg_get_def offset_def)
    have ne: "cdata (img ?g) \<noteq> cdata (img im)"
      using a alt by simp
    have fresh: "buffer H (cdata (img ?g)) = None"
      by (simp add: buffer_fresh)
    have indep: "buffer H'' (cdata (img im)) = buffer H (cdata (img im))"
      if "CImg_set ?H' (img ?g) x y c v = Inr H''" for x y c v H''
    proof -
      from that obtain a' b' where "cdata (img ?g) = Some a'"
        and "H'' = ?H'[a' := Some (b'[offset (img ?g) x y c := v])]"
        by (rule CImg_set_heap)
      then have "H'' = H @ [Some (b'[offset (img ?g) x y c := v])]"
        by auto
      then show ?thesis using alt by (simp add: a buffer_def nth_append)
    qed
    show ?thesis
      using run wfg same ne fresh bg src indep
      by (intro exI [of _ ?g] exI [of _ ?H'] conjI allI impI) simp_all
  qed
  show ?thesis
    using frame total copy by blast
qed

theorem toGrayscale_frame_witness:
  "Image_wf [Some [Finite 5, Finite 6]]
     \<lparr>imgPath = ''gray.png'',
      img = \<lparr>cwidth = 2, cheight = 1, cspectrum = 1, cdata = Some 0\<rparr>,
      width = 2, height = 1, channels = 1\<rparr>
   \<and> toGrayscale [Some [Finite 5, Finite 6]] (\<lambda>_. 0)
     \<lparr>imgPath = ''gray.png'',
      img = \<lparr>cwidth = 2, cheight = 1, cspectrum = 1, cdata = Some 0\<rparr>,
      width = 2, height = 1, channels = 1\<rparr>
     = Inr (\<lparr>imgPath = ''gray.png'',
            img = \<lparr>cwidth = 2, cheight = 1, cspectrum = 1, cdata = Some 1\<rparr>,
            width = 2, height = 1, channels = 1\<rparr>,
           [Some [Finite 5, Finite 6], Some [Finite 5, Finite 6]])
   \<and> buffer [Some [Finite 5, Finite 6], Some [Finite 5, Finite 6]] (Some 0) = Some [Finite 5, Finite 6]"
  using toGrayscale_frame [of "[Some [Finite 5, Finite 6]]"
     "\<lparr>imgPath = ''gray.png'',
      img = \<lparr>cwidth = 2, cheight = 1, cspectrum = 1, cdata = Some 0\<rparr>,
      width = 2, height = 1, channels = 1\<rparr>" "\<lambda>_. 0"]
  by (simp add: eval_defs toGrayscale_def Image_copy_def CImg_copy_def alloc_def)

subsection \<open>The channel count\<close>

text \<open>
  Claim C7, as stated, fails: the move assignment copies the channel count of the store it
  adopts without checking it. An image built with 3 channels has 4 after a store with 4
  channels has been assigned to it.
\<close>

theorem assign_breaks_channels:
  "Image_WithSizeVal [] 1 1 3 0 =
     Inr (\<lparr>imgPath = ''new_img.png'',
           img = \<lparr>cwidth = 1, cheight = 1, cspectrum = 3, cdata = Some 0\<rparr>,
           width = 1, height = 1, channels = 3\<rparr>, [Some [0, 0, 0]])
   \<and> CImg_fill [Some [0, 0, 0]] 1 1 4 0 =
       (\<lparr>cwidth = 1, cheight = 1, cspectrum = 4, cdata = Some 1\<rparr>,
        [Some [0, 0, 0], Some [0, 0, 0, 0]])
   \<and> channels (fst (Image_assign [Some [0, 0, 0], Some [0, 0, 0, 0]]
        \<lparr>imgPath = ''new_img.png'',
         img = \<lparr>cwidth = 1, cheight = 1, cspectrum = 3, cdata = Some 0\<rparr>,
         width = 1, height = 1, channels = 3\<rparr>
        \<lparr>cwidth = 1, cheight = 1, cspectrum = 4, cdata = Some 1\<rparr>)) = 4
   \<and> channels (fst (Image_assign [Some [0, 0, 0], Some [0, 0, 0, 0]]
        \<lparr>imgPath = ''new_img.png'',
         img = \<lparr>cwidth = 1, cheight = 1, cspectrum = 3, cdata = Some 0\<rparr>,
         width = 1, height = 1, channels = 3\<rparr>
        \<lparr>cwidth = 1, cheight = 1, cspectrum = 4, cdata = Some 1\<rparr>)) \<notin> {1, 3}"
  by (simp add: ctor_defs samples_def Image_assign_def replicate_numeral_unfold)

text \<open>
  Claim C7, amended. Every image returned by the constructor from a file or by the
  constructors with an explicit size has 1 or 3 channels, and every image returned by
  \<open>toGrayscale\<close> has 1 channel. The move constructor and the move assignment validate
  nothing: the channel count of the image is the channel count of the store adopted, so it
  lies in \<open>{1, 3}\<close> exactly when the store's does.
\<close>

theorem channels_of_operations:
  "(Image_FromFile path st = Inr im1 \<longrightarrow> channels im1 \<in> {1, 3})
   \<and> (Image_WithSize H junk w h c = Inr (im2, H2) \<longrightarrow> channels im2 \<in> {1, 3})
   \<and> (Image_WithSizeVal H w h c val = Inr (im3, H3) \<longrightarrow> channels im3 \<in> {1, 3})
   \<and> (toGrayscale H junk im = Inr (g, H4) \<longrightarrow> channels g = 1)
   \<and> channels (fst (Image_Adopt st)) = cspectrum st
   \<and> channels (fst (Image_assign H im st)) = cspectrum st"
  using toGrayscale_channels [of H junk im g H4]
  by (auto simp: ctor_defs Let_def Image_Adopt_def Image_assign_def split: if_splits)

theorem channels_of_operations_witness:
  "Image_FromFile ''a.png'' \<lparr>cwidth = 1, cheight = 1, cspectrum = 3, cdata = Some 0\<rparr> =
      Inr \<lparr>imgPath = ''a.png'',
           img = \<lparr>cwidth = 1, cheight = 1, cspectrum = 3, cdata = Some 0\<rparr>,
           width = 1, height = 1, channels = 3\<rparr>
   \<and> Image_WithSize [Some [Finite 7, Finite 8, Finite 9]] (\<lambda>_. 0) 1 1 1 =
      Inr (\<lparr>imgPath = ''new_img.png'',
            img = \<lparr>cwidth = 1, cheight = 1, cspectrum = 1, cdata = Some 1\<rparr>,
            width = 1, height = 1, channels = 1\<rparr>, [Some [Finite 7, Finite 8, Finite 9], Some [0]])
   \<and> Image_WithSizeVal [Some [Finite 7, Finite 8, Finite 9]] 1 1 1 (Finite 2) =
      Inr (\<lparr>imgPath = ''new_img.png'',
            img = \<lparr>cwidth = 1, cheight = 1, cspectrum = 1, cdata = Some 1\<rparr>,
            width = 1, height = 1, channels = 1\<rparr>, [Some [Finite 7, Finite 8, Finite 9], Some [Finite 2]])
   \<and> toGrayscale [Some [Finite 7, Finite 8, Finite 9]] (\<lambda>_. 0)
        \<lparr>imgPath = ''a.png'',
         img = \<lparr>cwidth = 1, cheight = 1, cspectrum = 3, cdata = Some 0\<rparr>,
         width = 1, height = 1, channels = 3\<rparr> =
      Inr (\<lparr>imgPath = ''new_img.png'',
            img = \<lparr>cwidth = 1, cheight = 1, cspectrum = 1, cdata = Some 1\<rparr>,
            width = 1, height = 1, channels = 1\<rparr>, [Some [Finite 7, Finite 8, Finite 9], Some [Finite 7.81]])
   \<and> channels (fst (Image_Adopt \<lparr>cwidth = 1, cheight = 1, cspectrum = 3, cdata = Some 0\<rparr>)) = 3"
  using channels_of_operations [of "''a.png''"
      "\<lparr>cwidth = 1, cheight = 1, cspectrum = 3, cdata = Some 0\<rparr>"
      "\<lparr>imgPath = ''a.png'',
           img = \<lparr>cwidth = 1, cheight = 1, cspectrum = 3, cdata = Some 0\<rparr>,
           width = 1, height = 1, channels = 3\<rparr>"
      "[Some [Finite 7, Finite 8, Finite 9]]" "\<lambda>_. 0" 1 1 1
      "\<lparr>imgPath = ''new_img.png'',
            img = \<lparr>cwidth = 1, cheight = 1, cspectrum = 1, cdata = Some 1\<rparr>,
            width = 1, height = 1, channels = 1\<rparr>"
      "[Some [Finite 7, Finite 8, Finite 9], Some [0]]" "Finite 2"
      "\<lparr>imgPath = ''new_img.png'',
            img = \<lparr>cwidth = 1, cheight = 1, cspectrum = 1, cdata = Some 1\<rparr>,
            width = 1, height = 1, channels = 1\<rparr>"
      "[Some [Finite 7, Finite 8, Finite 9], Some [Finite 2]]"
      "\<lparr>imgPath = ''a.png'',
         img = \<lparr>cwidth = 1, cheight = 1, cspectrum = 3, cdata = Some 0\<rparr>,
         width = 1, height = 1, channels = 3\<rparr>"
      "\<lparr>imgPath = ''new_img.png'',
            img = \<lparr>cwidth = 1, cheight = 1, cspectrum = 1, cdata = Some 1\<rparr>,
            width = 1, height = 1, channels = 1\<rparr>"
      "[Some [Finite 7, Finite 8, Finite 9], Some [Finite 7.81]]"]
  by (simp add: eval_defs toGrayscale_def ctor_defs gray_pixel_def CImg_set_def
        for_size_t.simps upt_rec Image_Adopt_def replicate_numeral_unfold)

end
